theory Spec2Isabelle
  imports Complex_Main "HOL-Library.Multiset" "HOL-Library.Monad_Syntax"
begin

section \<open>Python values used by the ingestion code\<close>

text \<open>
  A Python \<open>str\<close> is modelled as a \<open>string\<close>; a \<open>char\<close> stands for the code point of the
  same number, so the model covers lines whose code points lie in U+0000..U+00FF.
  Exceptions are values: a computation that may raise returns \<open>py_exception + 'a\<close>.
\<close>

datatype py_exception =
  ValueError | IndexError | OSError | OperationalError | ProgrammingError
  | DataError | UniqueViolation | OtherException

subsection \<open>\<open>str\<close> methods\<close>

text \<open>\<open>str.isspace\<close> on one character (also the class \<open>\s\<close> of \<open>re\<close> on \<open>str\<close> patterns).\<close>

definition py_isspace :: "char \<Rightarrow> bool" where
  "py_isspace c = (of_char c \<in> {9, 10, 11, 12, 13, 28, 29, 30, 31, 32, 133, 160 :: nat})"

definition is_digit :: "char \<Rightarrow> bool" where
  "is_digit c = (c \<in> set ''0123456789'')"

definition lstrip_with :: "(char \<Rightarrow> bool) \<Rightarrow> string \<Rightarrow> string" where
  "lstrip_with P s = dropWhile P s"

definition rstrip_with :: "(char \<Rightarrow> bool) \<Rightarrow> string \<Rightarrow> string" where
  "rstrip_with P s = rev (dropWhile P (rev s))"

definition strip_with :: "(char \<Rightarrow> bool) \<Rightarrow> string \<Rightarrow> string" where
  "strip_with P s = rstrip_with P (lstrip_with P s)"

text \<open>\<open>s.strip()\<close>, \<open>s.strip(chars)\<close> and \<open>s.rstrip(chars)\<close>.\<close>

definition py_strip :: "string \<Rightarrow> string" where
  "py_strip s = strip_with py_isspace s"

definition py_strip_chars :: "string \<Rightarrow> string \<Rightarrow> string" where
  "py_strip_chars chars s = strip_with (\<lambda>c. c \<in> set chars) s"

definition py_rstrip_chars :: "string \<Rightarrow> string \<Rightarrow> string" where
  "py_rstrip_chars chars s = rstrip_with (\<lambda>c. c \<in> set chars) s"

text \<open>\<open>s.split(sep)\<close> for a one-character separator: never an empty list.\<close>

fun py_split :: "char \<Rightarrow> string \<Rightarrow> string list" where
  "py_split sep [] = [[]]"
| "py_split sep (c # cs) =
     (if c = sep then [] # py_split sep cs
      else (case py_split sep cs of [] \<Rightarrow> [[c]] | x # xs \<Rightarrow> (c # x) # xs))"

text \<open>\<open>s.replace(old, new)\<close> for a one-character \<open>old\<close>.\<close>

definition py_replace :: "char \<Rightarrow> string \<Rightarrow> string \<Rightarrow> string" where
  "py_replace old new s = concat (map (\<lambda>c. if c = old then new else [c]) s)"

subsection \<open>\<open>float(s)\<close>\<close>

text \<open>
  The result of \<open>float\<close>: \<open>Finite q\<close> stands for the double nearest to the rational \<open>q\<close> that
  the decimal text denotes (the rounding of finite values is not modelled); a magnitude of
  at least \<open>2^1024 - 2^970\<close> rounds to an infinity.
\<close>

datatype py_float = Finite rat | PosInf | NegInf | NaN

definition c_isspace :: "char \<Rightarrow> bool" where
  "c_isspace c = (c \<in> set [CHR 0x09, CHR 0x0A, CHR 0x0B, CHR 0x0C, CHR 0x0D, CHR '' ''])"

definition is_ascii :: "string \<Rightarrow> bool" where
  "is_ascii s = list_all (\<lambda>c. (of_char c :: nat) < 128) s"

text \<open>
  A string with a character outside ASCII is first rewritten: white space becomes a blank,
  and the first other character from 127 on is replaced by \<open>?\<close> and ends the text (no
  code point of U+0080..U+00FF is a decimal digit).
\<close>

fun transform_decimal_and_space :: "string \<Rightarrow> string" where
  "transform_decimal_and_space [] = []"
| "transform_decimal_and_space (c # cs) =
     (if (of_char c :: nat) < 127 then c # transform_decimal_and_space cs
      else if py_isspace c then CHR '' '' # transform_decimal_and_space cs
      else ''?'')"

text \<open>
  Underscores are allowed only between two digits; \<open>prev\<close> is the character before.
\<close>

fun remove_underscores :: "char \<Rightarrow> string \<Rightarrow> string option" where
  "remove_underscores prev [] = (if prev = CHR ''_'' then None else Some [])"
| "remove_underscores prev (p # ps) =
     (if p = CHR ''_'' then (if is_digit prev then remove_underscores p ps else None)
      else if prev = CHR ''_'' \<and> \<not> is_digit p then None
      else map_option ((#) p) (remove_underscores p ps))"

definition parse_sign :: "string \<Rightarrow> bool \<times> string" where
  "parse_sign s =
     (case s of
        [] \<Rightarrow> (False, s)
      | c # r \<Rightarrow> if c = CHR ''-'' then (True, r) else if c = CHR ''+'' then (False, r) else (False, s))"

definition digit_val :: "char \<Rightarrow> nat" where
  "digit_val c = of_char c - 48"

definition nat_of_digits :: "string \<Rightarrow> nat" where
  "nat_of_digits ds = foldl (\<lambda>n c. 10 * n + digit_val c) 0 ds"

definition to_lower :: "char \<Rightarrow> char" where
  "to_lower c = (if 65 \<le> (of_char c :: nat) \<and> (of_char c :: nat) \<le> 90 then char_of (of_char c + 32 :: nat) else c)"

definition parse_inf_or_nan :: "string \<Rightarrow> py_float option" where
  "parse_inf_or_nan s =
     (let (neg, r) = parse_sign s; w = map to_lower r in
      if w = ''inf'' \<or> w = ''infinity'' then Some (if neg then NegInf else PosInf)
      else if w = ''nan'' then Some NaN
      else None)"

definition decimal_float :: "bool \<Rightarrow> string \<Rightarrow> int \<Rightarrow> py_float" where
  "decimal_float neg ds e =
     (let m = of_nat (nat_of_digits ds) :: rat;
          q = (if 0 \<le> e then m * 10 ^ nat e else m / 10 ^ nat (- e)) in
      if 2 ^ 1024 - 2 ^ 970 \<le> q then (if neg then NegInf else PosInf)
      else Finite (if neg then - q else q))"

text \<open>
  The number grammar: an optional sign, digits with an optional point (at least one digit),
  an optional exponent; the whole text has to be consumed.
\<close>

definition strtod :: "string \<Rightarrow> py_float option" where
  "strtod s =
     (let (neg, s1) = parse_sign s;
          ip = takeWhile is_digit s1;
          s2 = dropWhile is_digit s1;
          (fp, s3) = (case s2 of
                        [] \<Rightarrow> ([], s2)
                      | c # r \<Rightarrow> if c = CHR ''.'' then (takeWhile is_digit r, dropWhile is_digit r)
                                else ([], s2)) in
      if ip = [] \<and> fp = [] then parse_inf_or_nan s
      else (case s3 of
              [] \<Rightarrow> Some (decimal_float neg (ip @ fp) (- int (length fp)))
            | c # r \<Rightarrow>
                if c = CHR ''e'' \<or> c = CHR ''E'' then
                  (let (eneg, r1) = parse_sign r; ed = takeWhile is_digit r1 in
                   if ed = [] \<or> dropWhile is_digit r1 \<noteq> [] then None
                   else Some (decimal_float neg (ip @ fp)
                          ((if eneg then - int (nat_of_digits ed) else int (nat_of_digits ed))
                            - int (length fp))))
                else None))"

definition py_float_of_str :: "string \<Rightarrow> py_exception + py_float" where
  "py_float_of_str s =
     (let s1 = (if is_ascii s then s else transform_decimal_and_space s) in
      case (if CHR ''_'' \<in> set s1 then remove_underscores (CHR 0x00) s1 else Some s1) of
        None \<Rightarrow> Inl ValueError
      | Some s2 \<Rightarrow>
          (case strtod (strip_with c_isspace s2) of
             None \<Rightarrow> Inl ValueError
           | Some x \<Rightarrow> Inr x))"

subsection \<open>The pattern of \<open>re.search\<close>\<close>

text \<open>
  The pattern is \<^verbatim>\<open>(\d{2})\.(\d{2})\.(\d{2})\s+(\d{2}:\d{2}:\d{2})\<close>. No digit is white space,
  so the greedy \<^verbatim>\<open>\s+\<close> takes the whole run of white space; \<open>re.search\<close> returns the
  match at the leftmost position that has one. The result is \<open>match.groups()\<close>.
\<close>

fun digits2 :: "string \<Rightarrow> (string \<times> string) option" where
  "digits2 (a # b # r) = (if is_digit a \<and> is_digit b then Some ([a, b], r) else None)"
| "digits2 _ = None"

fun lit :: "char \<Rightarrow> string \<Rightarrow> string option" where
  "lit c [] = None"
| "lit c (x # r) = (if x = c then Some r else None)"

fun spaces1 :: "string \<Rightarrow> string option" where
  "spaces1 [] = None"
| "spaces1 (x # r) = (if py_isspace x then Some (dropWhile py_isspace r) else None)"

definition match_at :: "string \<Rightarrow> (string \<times> string \<times> string \<times> string) option" where
  "match_at s = do {
     (day, s1) \<leftarrow> digits2 s;
     s2 \<leftarrow> lit (CHR ''.'') s1;
     (month, s3) \<leftarrow> digits2 s2;
     s4 \<leftarrow> lit (CHR ''.'') s3;
     (year, s5) \<leftarrow> digits2 s4;
     s6 \<leftarrow> spaces1 s5;
     (hh, s7) \<leftarrow> digits2 s6;
     s8 \<leftarrow> lit (CHR '':'') s7;
     (mm, s9) \<leftarrow> digits2 s8;
     s10 \<leftarrow> lit (CHR '':'') s9;
     (ss, s11) \<leftarrow> digits2 s10;
     Some (day, month, year, hh @ '':'' @ mm @ '':'' @ ss)
   }"

fun re_search :: "string \<Rightarrow> (string \<times> string \<times> string \<times> string) option" where
  "re_search [] = match_at []"
| "re_search (c # r) = (case match_at (c # r) of Some g \<Rightarrow> Some g | None \<Rightarrow> re_search r)"

subsection \<open>The optional accelerated parser\<close>

text \<open>
  \<open>ciso8601.parse_datetime\<close> is a library outside the repository. It is modelled on the one
  layout that reaches it, \<open>YYYY-MM-DD HH:MM:SS\<close>, with the checks the library documents: a
  year from 1, a month of the year, a day of that month, an hour below 24, minute and second
  below 60, and \<open>24:00:00\<close> read as midnight of the next day. Any other text is a
  \<open>ValueError\<close> here.
\<close>

record datetime =
  d_year :: nat
  d_month :: nat
  d_day :: nat
  d_hour :: nat
  d_minute :: nat
  d_second :: nat

definition is_leap :: "nat \<Rightarrow> bool" where
  "is_leap y = (y mod 4 = 0 \<and> (y mod 100 \<noteq> 0 \<or> y mod 400 = 0))"

definition days_in_month :: "nat \<Rightarrow> nat \<Rightarrow> nat" where
  "days_in_month y m =
     (if m = 2 then (if is_leap y then 29 else 28)
      else if m = 4 \<or> m = 6 \<or> m = 9 \<or> m = 11 then 30
      else 31)"

definition valid_datetime :: "datetime \<Rightarrow> bool" where
  "valid_datetime dt =
     (1 \<le> d_year dt \<and> d_year dt \<le> 9999 \<and> 1 \<le> d_month dt \<and> d_month dt \<le> 12 \<and>
      1 \<le> d_day dt \<and> d_day dt \<le> days_in_month (d_year dt) (d_month dt) \<and>
      d_hour dt \<le> 23 \<and> d_minute dt \<le> 59 \<and> d_second dt \<le> 59)"

definition next_day :: "datetime \<Rightarrow> datetime" where
  "next_day dt =
     (if d_day dt < days_in_month (d_year dt) (d_month dt) then dt\<lparr>d_day := d_day dt + 1\<rparr>
      else if d_month dt < 12 then dt\<lparr>d_month := d_month dt + 1, d_day := 1\<rparr>
      else dt\<lparr>d_year := d_year dt + 1, d_month := 1, d_day := 1\<rparr>)"

definition iso_fields :: "string \<Rightarrow> (nat \<times> nat \<times> nat \<times> nat \<times> nat \<times> nat) option" where
  "iso_fields s = do {
     (c, s1) \<leftarrow> digits2 s;
     (y, s2) \<leftarrow> digits2 s1;
     s3 \<leftarrow> lit (CHR ''-'') s2;
     (mo, s4) \<leftarrow> digits2 s3;
     s5 \<leftarrow> lit (CHR ''-'') s4;
     (d, s6) \<leftarrow> digits2 s5;
     s7 \<leftarrow> lit (CHR '' '') s6;
     (h, s8) \<leftarrow> digits2 s7;
     s9 \<leftarrow> lit (CHR '':'') s8;
     (mi, s10) \<leftarrow> digits2 s9;
     s11 \<leftarrow> lit (CHR '':'') s10;
     (se, s12) \<leftarrow> digits2 s11;
     if s12 = [] then
       Some (nat_of_digits (c @ y), nat_of_digits mo, nat_of_digits d,
             nat_of_digits h, nat_of_digits mi, nat_of_digits se)
     else None
   }"

definition ciso8601_parse_datetime :: "string \<Rightarrow> py_exception + datetime" where
  "ciso8601_parse_datetime s =
     (case iso_fields s of
        None \<Rightarrow> Inl ValueError
      | Some (y, mo, d, h, mi, se) \<Rightarrow>
          if y < 1 \<or> mo < 1 \<or> 12 < mo \<or> d < 1 \<or> days_in_month y mo < d then Inl ValueError
          else if h = 24 \<and> mi = 0 \<and> se = 0 then
            (if y = 9999 \<and> mo = 12 \<and> d = 31 then Inl ValueError
             else Inr (next_day \<lparr>d_year = y, d_month = mo, d_day = d,
                                d_hour = 0, d_minute = 0, d_second = 0\<rparr>))
          else if 23 < h \<or> 59 < mi \<or> 59 < se then Inl ValueError
          else Inr \<lparr>d_year = y, d_month = mo, d_day = d,
                    d_hour = h, d_minute = mi, d_second = se\<rparr>)"

text \<open>\<open>dt.strftime('%Y-%m-%d %H:%M:%S')\<close>: every field zero-padded to its width.\<close>

definition digit_char :: "nat \<Rightarrow> char" where
  "digit_char n = ''0123456789'' ! (n mod 10)"

definition pad2 :: "nat \<Rightarrow> string" where
  "pad2 n = [digit_char (n div 10), digit_char n]"

definition pad4 :: "nat \<Rightarrow> string" where
  "pad4 n = [digit_char (n div 1000), digit_char (n div 100), digit_char (n div 10), digit_char n]"

definition strftime :: "datetime \<Rightarrow> string" where
  "strftime dt =
     pad4 (d_year dt) @ ''-'' @ pad2 (d_month dt) @ ''-'' @ pad2 (d_day dt) @ '' '' @
     pad2 (d_hour dt) @ '':'' @ pad2 (d_minute dt) @ '':'' @ pad2 (d_second dt)"

section \<open>The line normalizer: \<open>transform_timestamp_fast\<close>\<close>

text \<open>
  The body of the \<open>try\<close> block. The flag \<open>ciso8601\<close> says whether the import of the
  accelerated parser succeeded. \<open>float\<close> and \<open>ciso8601.parse_datetime\<close> are the calls that
  can raise.
\<close>

definition transform_timestamp_try :: "bool \<Rightarrow> string \<Rightarrow> py_exception + string option" where
  "transform_timestamp_try ciso8601 line =
     (let cols = py_split (CHR '';'') (py_rstrip_chars [CHR 0x0A] line) in
      if length cols < 2 then Inr None
      else
        let raw_ts = py_strip_chars [CHR 0x22] (py_strip (cols ! 0));
            raw_freq = py_replace (CHR '','') ''.'' (py_strip_chars [CHR 0x22] (py_strip (cols ! 1)))
        in
        case py_float_of_str raw_freq of
          Inl e \<Rightarrow> Inl e
        | Inr x \<Rightarrow>
            (case re_search raw_ts of
               None \<Rightarrow> Inr None
             | Some (day, month, year, time_part) \<Rightarrow>
                 let full_year = ''20'' @ year;
                     iso_string = full_year @ ''-'' @ month @ ''-'' @ day @ '' '' @ time_part
                 in
                 if ciso8601 then
                   (case ciso8601_parse_datetime iso_string of
                      Inl e \<Rightarrow> Inl e
                    | Inr dt_obj \<Rightarrow> Inr (Some (strftime dt_obj @ '','' @ raw_freq @ [CHR 0x0A])))
                 else Inr (Some (iso_string @ '','' @ raw_freq @ [CHR 0x0A]))))"

text \<open>
  The function with its handlers: \<open>except (ValueError, IndexError)\<close> and \<open>except Exception\<close>
  both return \<open>None\<close>.
\<close>

definition transform_timestamp_fast :: "bool \<Rightarrow> string \<Rightarrow> py_exception + string option" where
  "transform_timestamp_fast ciso8601 line =
     (case transform_timestamp_try ciso8601 line of
        Inr r \<Rightarrow> Inr r
      | Inl e \<Rightarrow> if e = ValueError \<or> e = IndexError then Inr None else Inr None)"

text \<open>
  The local values \<open>cols\<close>, \<open>raw_ts\<close>, \<open>raw_freq\<close> and \<open>iso_string\<close> of the function, named
  so that statements about an accepted line can refer to them.
\<close>

definition cols_of :: "string \<Rightarrow> string list" where
  "cols_of line = py_split (CHR '';'') (py_rstrip_chars [CHR 0x0A] line)"

definition raw_ts_of :: "string \<Rightarrow> string" where
  "raw_ts_of line = py_strip_chars [CHR 0x22] (py_strip (cols_of line ! 0))"

definition raw_freq_of :: "string \<Rightarrow> string" where
  "raw_freq_of line =
     py_replace (CHR '','') ''.'' (py_strip_chars [CHR 0x22] (py_strip (cols_of line ! 1)))"

fun iso_string_of :: "string \<times> string \<times> string \<times> string \<Rightarrow> string" where
  "iso_string_of (day, month, year, time_part) =
     (''20'' @ year) @ ''-'' @ month @ ''-'' @ day @ '' '' @ time_part"

section \<open>The sink\<close>

text \<open>
  The store is outside the repository; the model keeps what the SQL of the code reads and
  writes. A relation has the identity the catalogue gave it when it was created (\<open>oid\<close>),
  its rows in the order of insertion, keyed by the timestamp (the primary key), and the
  flag of the hypertable catalogue. The conversion of a text row to a key and a value is
  the sink's own and is a parameter (\<open>pg_row\<close>) wherever text is loaded.
\<close>

record ('t, 'v) relation =
  oid :: nat
  rows :: "('t \<times> 'v) list"
  hypertable :: bool

record ('t, 'v) database =
  tables :: "string \<Rightarrow> ('t, 'v) relation option"
  next_oid :: nat

text \<open>
  A \<open>psycopg2\<close> connection: statements work on \<open>working\<close>, \<open>commit\<close> makes it the
  committed state, \<open>rollback\<close> returns to the committed state, and closing the connection
  leaves the committed state in the store.
\<close>

record ('t, 'v) connection =
  committed :: "('t, 'v) database"
  working :: "('t, 'v) database"

definition commit :: "('t, 'v) connection \<Rightarrow> ('t, 'v) connection" where
  "commit conn = conn\<lparr>committed := working conn\<rparr>"

definition rollback :: "('t, 'v) connection \<Rightarrow> ('t, 'v) connection" where
  "rollback conn = conn\<lparr>working := committed conn\<rparr>"

definition close_connection :: "('t, 'v) connection \<Rightarrow> ('t, 'v) database" where
  "close_connection conn = committed conn"

definition on_tables ::
  "((string \<Rightarrow> ('t, 'v) relation option) \<Rightarrow> (string \<Rightarrow> ('t, 'v) relation option)) \<Rightarrow>
   ('t, 'v) connection \<Rightarrow> ('t, 'v) connection" where
  "on_tables f conn = conn\<lparr>working := (working conn)\<lparr>tables := f (tables (working conn))\<rparr>\<rparr>"

text \<open>\<open>SELECT EXISTS (SELECT FROM pg_tables WHERE ... tablename = %s)\<close>\<close>

definition table_exists :: "('t, 'v) connection \<Rightarrow> string \<Rightarrow> bool" where
  "table_exists conn table_name = (tables (working conn) table_name \<noteq> None)"

text \<open>\<open>CREATE TABLE\<close>: a new, empty relation with a fresh identity; an error if the name is taken.\<close>

definition create_table ::
  "string \<Rightarrow> ('t, 'v) connection \<Rightarrow> py_exception + ('t, 'v) connection" where
  "create_table table_name conn =
     (if table_exists conn table_name then Inl ProgrammingError
      else Inr (conn\<lparr>working := (working conn)\<lparr>
             tables := (tables (working conn))
               (table_name \<mapsto> \<lparr>oid = next_oid (working conn), rows = [], hypertable = False\<rparr>),
             next_oid := next_oid (working conn) + 1\<rparr>\<rparr>))"

text \<open>\<open>DROP TABLE IF EXISTS ... CASCADE\<close>\<close>

definition drop_table_if_exists :: "string \<Rightarrow> ('t, 'v) connection \<Rightarrow> ('t, 'v) connection" where
  "drop_table_if_exists table_name conn = on_tables (\<lambda>ts. ts(table_name := None)) conn"

text \<open>\<open>SELECT COUNT(*) FROM timescaledb_information.hypertables WHERE hypertable_name = %s\<close>, compared with 0.\<close>

definition is_hypertable :: "('t, 'v) connection \<Rightarrow> string \<Rightarrow> bool" where
  "is_hypertable conn table_name =
     (case tables (working conn) table_name of None \<Rightarrow> False | Some rel \<Rightarrow> hypertable rel)"

text \<open>
  \<open>SELECT create_hypertable(...)\<close>: an error for a missing relation and for one that has
  rows (the call asks for no migration of data).
\<close>

definition create_hypertable ::
  "string \<Rightarrow> ('t, 'v) connection \<Rightarrow> py_exception + ('t, 'v) connection" where
  "create_hypertable table_name conn =
     (case tables (working conn) table_name of
        None \<Rightarrow> Inl ProgrammingError
      | Some rel \<Rightarrow>
          if rows rel \<noteq> [] \<and> \<not> hypertable rel then Inl ProgrammingError
          else Inr (on_tables (\<lambda>ts. ts(table_name \<mapsto> rel\<lparr>hypertable := True\<rparr>)) conn))"

text \<open>\<open>TRUNCATE TABLE\<close>\<close>

definition truncate_table ::
  "string \<Rightarrow> ('t, 'v) connection \<Rightarrow> py_exception + ('t, 'v) connection" where
  "truncate_table table_name conn =
     (case tables (working conn) table_name of
        None \<Rightarrow> Inl ProgrammingError
      | Some rel \<Rightarrow> Inr (on_tables (\<lambda>ts. ts(table_name \<mapsto> rel\<lparr>rows := []\<rparr>)) conn))"

text \<open>
  \<open>COPY ... FROM STDIN WITH (FORMAT csv, DELIMITER ',')\<close>. The stream is read line by line
  (the text the code sends holds no quote character); a line the sink cannot convert is a
  \<open>DataError\<close>, a timestamp that is already a key is a \<open>UniqueViolation\<close>, and either ends
  the statement without any row of it.
\<close>

definition csv_lines :: "string \<Rightarrow> string list" where
  "csv_lines s = (let ps = py_split (CHR 0x0A) s in if last ps = [] then butlast ps else ps)"

fun copy_from ::
  "(string \<Rightarrow> ('t \<times> 'v) option) \<Rightarrow> string list \<Rightarrow> ('t \<times> 'v) list \<Rightarrow>
   py_exception + ('t \<times> 'v) list" where
  "copy_from pg_row [] rs = Inr rs"
| "copy_from pg_row (l # ls) rs =
     (case pg_row l of
        None \<Rightarrow> Inl DataError
      | Some (t, v) \<Rightarrow>
          if t \<in> set (map fst rs) then Inl UniqueViolation
          else copy_from pg_row ls (rs @ [(t, v)]))"

definition copy_expert ::
  "(string \<Rightarrow> ('t \<times> 'v) option) \<Rightarrow> string \<Rightarrow> string \<Rightarrow> ('t, 'v) connection \<Rightarrow>
   py_exception + ('t, 'v) connection" where
  "copy_expert pg_row table_name data conn =
     (case tables (working conn) table_name of
        None \<Rightarrow> Inl ProgrammingError
      | Some rel \<Rightarrow>
          (case copy_from pg_row (csv_lines data) (rows rel) of
             Inl e \<Rightarrow> Inl e
           | Inr rs \<Rightarrow> Inr (on_tables (\<lambda>ts. ts(table_name \<mapsto> rel\<lparr>rows := rs\<rparr>)) conn)))"

text \<open>
  \<open>INSERT ... VALUES %s ON CONFLICT (timestamp) DO NOTHING\<close> through \<open>execute_values\<close>: a
  row whose timestamp is already a key is skipped.
\<close>

fun insert_do_nothing :: "('t \<times> 'v) list \<Rightarrow> ('t \<times> 'v) list \<Rightarrow> ('t \<times> 'v) list" where
  "insert_do_nothing [] rs = rs"
| "insert_do_nothing ((t, v) # new) rs =
     insert_do_nothing new (if t \<in> set (map fst rs) then rs else rs @ [(t, v)])"

definition execute_values ::
  "string \<Rightarrow> ('t \<times> 'v) list \<Rightarrow> ('t, 'v) connection \<Rightarrow> py_exception + ('t, 'v) connection" where
  "execute_values table_name data_to_insert conn =
     (case tables (working conn) table_name of
        None \<Rightarrow> Inl ProgrammingError
      | Some rel \<Rightarrow>
          Inr (on_tables (\<lambda>ts. ts(table_name \<mapsto>
                 rel\<lparr>rows := insert_do_nothing data_to_insert (rows rel)\<rparr>)) conn))"

text \<open>
  A sink conversion for concrete runs: the two comma-separated fields, kept as text.
\<close>

definition csv_row :: "string \<Rightarrow> (string \<times> string) option" where
  "csv_row l = (case py_split (CHR '','') l of [t, v] \<Rightarrow> Some (t, v) | _ \<Rightarrow> None)"

section \<open>Connections\<close>

text \<open>
  Whether the server answers is the environment's: a list gives the outcome of each
  connection attempt in turn (an exhausted list is a server that stays down).
\<close>

definition next_attempt :: "bool list \<Rightarrow> bool \<times> bool list" where
  "next_attempt outcomes = (case outcomes of [] \<Rightarrow> (False, []) | ok # rest \<Rightarrow> (ok, rest))"

text \<open>\<open>database.get_db_connection\<close>: one call of \<open>psycopg2.connect\<close>; \<open>None\<close> on \<open>OperationalError\<close>.\<close>

definition get_db_connection ::
  "bool list \<Rightarrow> ('t, 'v) database \<Rightarrow> ('t, 'v) connection option \<times> bool list" where
  "get_db_connection outcomes db =
     (case next_attempt outcomes of
        (True, rest) \<Rightarrow> (Some \<lparr>committed = db, working = db\<rparr>, rest)
      | (False, rest) \<Rightarrow> (None, rest))"

text \<open>
  \<open>main.get_async_db_pool\<close>: the loop over \<open>range(1, retries + 1)\<close>. The result is the pool
  (\<open>Some ()\<close>), the \<open>None\<close> of a loop that ends without returning, or the exception raised
  again after the last attempt; with it, the outcomes not yet used and the seconds slept.
\<close>

fun pool_attempts ::
  "nat \<Rightarrow> nat \<Rightarrow> nat list \<Rightarrow> bool list \<Rightarrow> nat \<Rightarrow>
   (py_exception + unit option) \<times> bool list \<times> nat" where
  "pool_attempts retries delay [] outcomes slept = (Inr None, outcomes, slept)"
| "pool_attempts retries delay (attempt # later) outcomes slept =
     (case next_attempt outcomes of
        (True, rest) \<Rightarrow> (Inr (Some ()), rest, slept)
      | (False, rest) \<Rightarrow>
          if attempt = retries then (Inl OperationalError, rest, slept)
          else pool_attempts retries delay later rest (slept + delay))"

definition get_async_db_pool ::
  "bool list \<Rightarrow> (py_exception + unit option) \<times> bool list \<times> nat" where
  "get_async_db_pool outcomes =
     (let retries = 5; delay = 5 in
      pool_attempts retries delay [1..<retries + 1] outcomes 0)"

section \<open>The schema preparer: \<open>ensure_table_and_hypertable\<close>\<close>

text \<open>
  The function returns the connection as it stands and the exception that left it, if any.
  A second \<open>create_hypertable\<close> is tried when the first raises.
\<close>

definition ensure_table_and_hypertable ::
  "('t, 'v) connection \<Rightarrow> string \<Rightarrow> bool \<Rightarrow> ('t, 'v) connection \<times> py_exception option" where
  "ensure_table_and_hypertable conn table_name clear_data =
     (case (if \<not> table_exists conn table_name
            then (case create_table table_name conn of
                    Inl e \<Rightarrow> (conn, Some e)
                  | Inr c \<Rightarrow> (commit c, None))
            else (conn, None)) of
        (conn1, Some e) \<Rightarrow> (conn1, Some e)
      | (conn1, None) \<Rightarrow>
          (case (if \<not> is_hypertable conn1 table_name
                 then (case (case create_hypertable table_name conn1 of
                               Inl e \<Rightarrow> create_hypertable table_name conn1
                             | Inr c \<Rightarrow> Inr c) of
                         Inl e \<Rightarrow> (conn1, Some e)
                       | Inr c \<Rightarrow> (commit c, None))
                 else (conn1, None)) of
             (conn2, Some e) \<Rightarrow> (conn2, Some e)
           | (conn2, None) \<Rightarrow>
               if clear_data
               then (case truncate_table table_name conn2 of
                       Inl e \<Rightarrow> (conn2, Some e)
                     | Inr c \<Rightarrow> (commit c, None))
               else (conn2, None)))"

section \<open>The worker pool\<close>

text \<open>
  \<open>Pool.imap_unordered(func, iterable, chunksize)\<close> cuts the input into chunks of \<open>chunksize\<close>
  items; a worker takes the next chunk when it is free, so the chunks in flight are the
  first \<open>processes\<close> chunks not yet completed, and any of them may complete next. The
  scheduler's choice is a list of numbers: choice \<open>k\<close> completes chunk \<open>k mod m\<close> of the \<open>m\<close>
  chunks in flight. With one process the results come in the order of the input.
\<close>

function chunks_of :: "nat \<Rightarrow> 'a list \<Rightarrow> 'a list list" where
  "chunks_of n xs = (if n = 0 \<or> xs = [] then [] else take n xs # chunks_of n (drop n xs))"
  by pat_completeness auto
termination
  by (relation "measure (\<lambda>(n, xs). length xs)") auto

fun completion_order :: "nat \<Rightarrow> nat list \<Rightarrow> 'a list \<Rightarrow> 'a list" where
  "completion_order processes [] ys = ys"
| "completion_order processes (k # ks) ys =
     (if ys = [] then []
      else let i = k mod (min processes (length ys)) in
           ys ! i # completion_order processes ks (take i ys @ drop (Suc i) ys))"

definition imap_unordered ::
  "nat \<Rightarrow> nat list \<Rightarrow> ('a \<Rightarrow> py_exception + 'b) \<Rightarrow> 'a list \<Rightarrow> nat \<Rightarrow> (py_exception + 'b) list" where
  "imap_unordered processes choices func iterable chunksize =
     concat (completion_order processes choices (map (map func) (chunks_of chunksize iterable)))"

text \<open>
  The loop \<open>for i, result in enumerate(results): transformed_lines.append(result)\<close>; an
  exception of a worker is raised by the iterator. The progress line is output only.
\<close>

fun collect_results :: "(py_exception + 'b) list \<Rightarrow> 'b list \<Rightarrow> py_exception + 'b list" where
  "collect_results [] transformed_lines = Inr transformed_lines"
| "collect_results (Inl e # results) transformed_lines = Inl e"
| "collect_results (Inr result # results) transformed_lines =
     collect_results results (transformed_lines @ [result])"

section \<open>The coordinator: \<open>ingest_parallel\<close>\<close>

text \<open>
  What a run depends on outside its arguments: whether \<open>ciso8601\<close> was imported, the
  outcomes of the connection attempts, \<open>f.readlines()\<close> of the input file (\<open>None\<close> when the
  file cannot be opened), \<open>cpu_count()\<close>, the scheduler's choices and the sink's conversion.
\<close>

record ('t, 'v) environment =
  has_ciso8601 :: bool
  connect_outcomes :: "bool list"
  file_lines :: "string list option"
  cpu_count :: nat
  completions :: "nat list"
  pg_row :: "string \<Rightarrow> ('t \<times> 'v) option"

text \<open>
  Step 3 and the filter after it. \<open>Pool(processes=0)\<close> raises \<open>ValueError\<close>. The result is
  \<open>transformed_lines\<close>, \<open>cleaned_lines\<close>, \<open>cleaned_count\<close> and \<open>skipped_count\<close>.
\<close>

definition transform_phase ::
  "bool \<Rightarrow> nat \<Rightarrow> nat list \<Rightarrow> string list \<Rightarrow>
   py_exception + (string option list \<times> string list \<times> nat \<times> int)" where
  "transform_phase ciso8601 num_cpus choices lines =
     (let total_rows = length lines in
      if num_cpus < 1 then Inl ValueError
      else
        case collect_results
               (imap_unordered num_cpus choices (transform_timestamp_fast ciso8601) lines 1000) [] of
          Inl e \<Rightarrow> Inl e
        | Inr transformed_lines \<Rightarrow>
            let cleaned_lines = List.map_filter (\<lambda>line. line) transformed_lines;
                cleaned_count = length cleaned_lines;
                skipped_count = int total_rows - int cleaned_count
            in Inr (transformed_lines, cleaned_lines, cleaned_count, skipped_count))"

datatype run_outcome =
  NoConnection | NoDataRows | Ingested nat int | Inserted nat | Failed py_exception

text \<open>The body of the \<open>try\<close> block, with \<open>clear_data=True\<close> as the code passes it.\<close>

definition ingest_parallel_try ::
  "('t, 'v) environment \<Rightarrow> string \<Rightarrow> ('t, 'v) connection \<Rightarrow>
   ('t, 'v) connection \<times> (py_exception + run_outcome)" where
  "ingest_parallel_try env table_name conn =
     (case ensure_table_and_hypertable conn table_name True of
        (conn1, Some e) \<Rightarrow> (conn1, Inl e)
      | (conn1, None) \<Rightarrow>
          (case file_lines env of
             None \<Rightarrow> (conn1, Inl OSError)
           | Some ls \<Rightarrow>
               let lines = drop 1 ls; total_rows = length lines in
               if total_rows = 0 then (conn1, Inr NoDataRows)
               else
                 (case transform_phase (has_ciso8601 env) (cpu_count env) (completions env) lines of
                    Inl e \<Rightarrow> (conn1, Inl e)
                  | Inr (transformed_lines, cleaned_lines, cleaned_count, skipped_count) \<Rightarrow>
                      let data_to_copy = concat cleaned_lines in
                      (case copy_expert (pg_row env) table_name data_to_copy conn1 of
                         Inl e \<Rightarrow> (conn1, Inl e)
                       | Inr conn2 \<Rightarrow>
                           (commit conn2, Inr (Ingested cleaned_count skipped_count))))))"

text \<open>
  The whole function: no connection, no run; an exception of the body is answered with
  \<open>rollback\<close>; the connection is closed on every path. The result is the store after the
  run, the outcome and the connection outcomes not yet used.
\<close>

definition ingest_parallel ::
  "('t, 'v) environment \<Rightarrow> string \<Rightarrow> ('t, 'v) database \<Rightarrow>
   ('t, 'v) database \<times> run_outcome \<times> bool list" where
  "ingest_parallel env table_name db =
     (case get_db_connection (connect_outcomes env) db of
        (None, rest) \<Rightarrow> (db, NoConnection, rest)
      | (Some conn, rest) \<Rightarrow>
          (case ingest_parallel_try env table_name conn of
             (conn', Inr out) \<Rightarrow> (close_connection conn', out, rest)
           | (conn', Inl e) \<Rightarrow> (close_connection (rollback conn'), Failed e, rest)))"

section \<open>The first entry point: \<open>ingest_data\<close>\<close>

text \<open>
  Step 3 of the function is \<open>pandas\<close>: \<open>frame\<close> is what it yields, the list
  \<open>data_to_insert\<close> or the exception it raised.
\<close>

definition ingest_data_try ::
  "(py_exception + ('t \<times> 'v) list) \<Rightarrow> ('t, 'v) connection \<Rightarrow>
   ('t, 'v) connection \<times> (py_exception + run_outcome)" where
  "ingest_data_try frame conn =
     (let conn1 = commit (drop_table_if_exists ''swissgrid_frequency_data'' conn) in
      case create_table ''swissgrid_frequency_data'' conn1 of
        Inl e \<Rightarrow> (conn1, Inl e)
      | Inr c \<Rightarrow>
          let conn2 = commit c in
          (case (if \<not> is_hypertable conn2 ''swissgrid_frequency_data''
                 then (case create_hypertable ''swissgrid_frequency_data'' conn2 of
                         Inl e \<Rightarrow> (conn2, Some e)
                       | Inr c' \<Rightarrow> (commit c', None))
                 else (conn2, None)) of
             (conn3, Some e) \<Rightarrow> (conn3, Inl e)
           | (conn3, None) \<Rightarrow>
               (case frame of
                  Inl e \<Rightarrow> (conn3, Inl e)
                | Inr data_to_insert \<Rightarrow>
                    (case execute_values ''swissgrid_frequency_data'' data_to_insert conn3 of
                       Inl e \<Rightarrow> (conn3, Inl e)
                     | Inr c' \<Rightarrow> (commit c', Inr (Inserted (length data_to_insert)))))))"

definition ingest_data ::
  "bool list \<Rightarrow> (py_exception + ('t \<times> 'v) list) \<Rightarrow> ('t, 'v) database \<Rightarrow>
   ('t, 'v) database \<times> run_outcome \<times> bool list" where
  "ingest_data outcomes frame db =
     (case get_db_connection outcomes db of
        (None, rest) \<Rightarrow> (db, NoConnection, rest)
      | (Some conn, rest) \<Rightarrow>
          (case ingest_data_try frame conn of
             (conn', Inr out) \<Rightarrow> (close_connection conn', out, rest)
           | (conn', Inl e) \<Rightarrow> (close_connection (rollback conn'), Failed e, rest)))"

section \<open>The query service\<close>

text \<open>
  Timestamps are instants in microseconds, frequencies rationals (the rounding of doubles is
  not modelled). \<open>datetime.fromisoformat(...).astimezone(timezone.utc)\<close> is a parameter:
  \<open>None\<close> stands for \<open>ValueError\<close>. A response is the list of rows or the status of the
  \<open>HTTPException\<close> raised.
\<close>

datatype TableName = swissgrid_frequency_data | volume_frequency_data | stresstest_frequency_data

fun table_value :: "TableName \<Rightarrow> string" where
  "table_value swissgrid_frequency_data = ''swissgrid_frequency_data''"
| "table_value volume_frequency_data = ''volume_frequency_data''"
| "table_value stresstest_frequency_data = ''stresstest_frequency_data''"

datatype Resolution = ms1 | s1 | s15 | s30 | m1 | m5 | m10 | m15 | m30 | h1 | h6 | d1

fun resolution_value :: "Resolution \<Rightarrow> string" where
  "resolution_value ms1 = ''1ms''"
| "resolution_value s1 = ''1s''"
| "resolution_value s15 = ''15s''"
| "resolution_value s30 = ''30s''"
| "resolution_value m1 = ''1m''"
| "resolution_value m5 = ''5m''"
| "resolution_value m10 = ''10m''"
| "resolution_value m15 = ''15m''"
| "resolution_value m30 = ''30m''"
| "resolution_value h1 = ''1h''"
| "resolution_value h6 = ''6h''"
| "resolution_value d1 = ''1d''"

text \<open>The interval \<open>'{resolution_value}'::interval\<close> in microseconds.\<close>

fun interval_us :: "Resolution \<Rightarrow> int" where
  "interval_us ms1 = 1000"
| "interval_us s1 = 1000000"
| "interval_us s15 = 15000000"
| "interval_us s30 = 30000000"
| "interval_us m1 = 60000000"
| "interval_us m5 = 300000000"
| "interval_us m10 = 600000000"
| "interval_us m15 = 900000000"
| "interval_us m30 = 1800000000"
| "interval_us h1 = 3600000000"
| "interval_us h6 = 21600000000"
| "interval_us d1 = 86400000000"

datatype http_error = HTTPException nat

definition in_range :: "int \<Rightarrow> int \<Rightarrow> int \<times> rat \<Rightarrow> bool" where
  "in_range start_dt end_dt r = (start_dt \<le> fst r \<and> fst r \<le> end_dt)"

definition get_raw_data ::
  "(string \<Rightarrow> int option) \<Rightarrow> (int, rat) database \<Rightarrow> TableName \<Rightarrow> string \<Rightarrow> string \<Rightarrow>
   http_error + (int \<times> rat) list" where
  "get_raw_data fromisoformat db table_name start_time end_time =
     (let clean_table_name = table_value table_name in
      case fromisoformat (py_replace (CHR ''Z'') ''+00:00'' start_time) of
        None \<Rightarrow> Inl (HTTPException 400)
      | Some start_dt \<Rightarrow>
          (case fromisoformat (py_replace (CHR ''Z'') ''+00:00'' end_time) of
             None \<Rightarrow> Inl (HTTPException 400)
           | Some end_dt \<Rightarrow>
               (case tables db clean_table_name of
                  None \<Rightarrow> Inl (HTTPException 500)
                | Some rel \<Rightarrow>
                    let records = sort_key fst (filter (in_range start_dt end_dt) (rows rel)) in
                    if records = [] then Inl (HTTPException 404)
                    else Inr records)))"

definition time_bucket :: "int \<Rightarrow> int \<Rightarrow> int" where
  "time_bucket width t = t - t mod width"

definition avg :: "rat list \<Rightarrow> rat" where
  "avg xs = sum_list xs / of_nat (length xs)"

definition get_aggregated_data ::
  "(string \<Rightarrow> int option) \<Rightarrow> (int, rat) database \<Rightarrow> TableName \<Rightarrow> string \<Rightarrow> string \<Rightarrow>
   Resolution \<Rightarrow> http_error + (int \<times> rat) list" where
  "get_aggregated_data fromisoformat db table_name start_time end_time resolution =
     (let clean_table_name = table_value table_name;
          width = interval_us resolution in
      case fromisoformat (py_replace (CHR ''Z'') ''+00:00'' start_time) of
        None \<Rightarrow> Inl (HTTPException 400)
      | Some start_dt \<Rightarrow>
          (case fromisoformat (py_replace (CHR ''Z'') ''+00:00'' end_time) of
             None \<Rightarrow> Inl (HTTPException 400)
           | Some end_dt \<Rightarrow>
               (case tables db clean_table_name of
                  None \<Rightarrow> Inl (HTTPException 500)
                | Some rel \<Rightarrow>
                    let selected = filter (in_range start_dt end_dt) (rows rel);
                        buckets = sort (remdups (map (\<lambda>r. time_bucket width (fst r)) selected));
                        records = map (\<lambda>bucket.
                          (bucket, avg (map snd (filter (\<lambda>r. time_bucket width (fst r) = bucket)
                                                   selected)))) buckets
                    in
                    if records = [] then Inl (HTTPException 404)
                    else Inr records)))"

section \<open>Notions used in the statements\<close>

text \<open>
  The normalizer as a function to its result (it never raises, see below), the lines it
  accepts, the results of a pool whose function does not raise, and the set of rows a
  store holds for a relation.
\<close>

definition normalized :: "bool \<Rightarrow> string \<Rightarrow> string option" where
  "normalized ciso8601 line =
     (case transform_timestamp_fast ciso8601 line of Inr r \<Rightarrow> r | Inl e \<Rightarrow> None)"

definition accepts :: "bool \<Rightarrow> string \<Rightarrow> bool" where
  "accepts ciso8601 line = (normalized ciso8601 line \<noteq> None)"

definition pool_results :: "nat \<Rightarrow> nat list \<Rightarrow> ('a \<Rightarrow> 'b) \<Rightarrow> 'a list \<Rightarrow> nat \<Rightarrow> 'b list" where
  "pool_results processes choices g iterable chunksize =
     concat (completion_order processes choices (map (map g) (chunks_of chunksize iterable)))"

definition loaded_rows :: "('t, 'v) database \<Rightarrow> string \<Rightarrow> ('t \<times> 'v) set option" where
  "loaded_rows db table_name = map_option (\<lambda>rel. set (rows rel)) (tables db table_name)"

definition relation_oid :: "('t, 'v) database \<Rightarrow> string \<Rightarrow> nat option" where
  "relation_oid db table_name = map_option oid (tables db table_name)"

text \<open>
  When a \<open>COPY\<close> of the lines \<open>ls\<close> into the rows \<open>rs\<close> goes through: every line converts,
  and the timestamps are new and pairwise different.
\<close>

definition copy_ok :: "(string \<Rightarrow> ('t \<times> 'v) option) \<Rightarrow> string list \<Rightarrow> ('t \<times> 'v) list \<Rightarrow> bool" where
  "copy_ok pg ls rs =
     (list_all (\<lambda>l. pg l \<noteq> None) ls \<and>
      distinct (map (\<lambda>l. fst (the (pg l))) ls) \<and>
      set (map (\<lambda>l. fst (the (pg l))) ls) \<inter> set (map fst rs) = {})"

text \<open>The accepted rows of a run, in the order in which the pool returned them.\<close>

definition cleaned_lines_of :: "('t, 'v) environment \<Rightarrow> string list \<Rightarrow> string list" where
  "cleaned_lines_of env lines =
     List.map_filter (\<lambda>line. line)
       (pool_results (cpu_count env) (completions env) (normalized (has_ciso8601 env)) lines 1000)"

text \<open>Every relation of \<open>db\<close> is still there in \<open>db'\<close>, with the identity it had.\<close>

definition keeps_relations :: "('t, 'v) database \<Rightarrow> ('t, 'v) database \<Rightarrow> bool" where
  "keeps_relations db db' =
     (\<forall>t rel. tables db t = Some rel \<longrightarrow> (\<exists>rel'. tables db' t = Some rel' \<and> oid rel' = oid rel))"

section \<open>Concrete inputs\<close>

text \<open>
  The inputs of the runs that are evaluated below: an empty store, the file of the concrete
  scenario of the specification, a file whose two data lines carry the same timestamp, and a
  store for the query service.
\<close>

definition empty_database :: "(string, string) database" where
  "empty_database = \<lparr>tables = Map.empty, next_oid = 0\<rparr>"

definition scenario_file :: "string list" where
  "scenario_file =
     [''Datum Zeit;A:f_soll_aktiv [Hz]\<newline>'',
      ''Sa. 01.05.21 00:00:00;50\<newline>'',
      ''Sa. 01.05.21 00:00:01;50,5\<newline>'',
      ''garbage;xx\<newline>'']"

definition duplicate_file :: "string list" where
  "duplicate_file =
     [''Datum Zeit;A:f_soll_aktiv [Hz]\<newline>'',
      ''Sa. 01.05.21 00:00:00;50\<newline>'',
      ''Sa. 01.05.21 00:00:00;50\<newline>'']"

definition run_env :: "bool list \<Rightarrow> string list \<Rightarrow> nat \<Rightarrow> nat list \<Rightarrow> (string, string) environment" where
  "run_env outcomes ls n choices =
     \<lparr>has_ciso8601 = True, connect_outcomes = outcomes, file_lines = Some ls,
      cpu_count = n, completions = choices, pg_row = csv_row\<rparr>"

definition existing_database :: "(string, string) database" where
  "existing_database =
     \<lparr>tables = [''swissgrid_frequency_data'' \<mapsto>
        \<lparr>oid = 0, rows = [(''2021-05-01 00:00:00'', ''50'')], hypertable = True\<rparr>],
      next_oid = 1\<rparr>"

definition query_database :: "(int, rat) database" where
  "query_database =
     \<lparr>tables = [''swissgrid_frequency_data'' \<mapsto>
        \<lparr>oid = 0, rows = [(1000000, 50), (0, 50), (2000000, 101 / 2)], hypertable = True\<rparr>],
      next_oid = 1\<rparr>"

text \<open>A stand-in for \<open>fromisoformat\<close> on concrete requests: the text is a number of seconds.\<close>

definition seconds_text :: "string \<Rightarrow> int option" where
  "seconds_text s =
     (if s \<noteq> [] \<and> list_all is_digit s then Some (1000000 * int (nat_of_digits s)) else None)"

section \<open>Properties of the line normalizer\<close>

subsection \<open>Unfolding sets for evaluation\<close>

lemmas str_defs = py_strip_def py_strip_chars_def py_rstrip_chars_def strip_with_def
  rstrip_with_def lstrip_with_def py_replace_def py_isspace_def is_digit_def

lemmas float_defs = py_float_of_str_def is_ascii_def strtod_def parse_sign_def
  c_isspace_def decimal_float_def nat_of_digits_def digit_val_def parse_inf_or_nan_def
  to_lower_def

lemmas ciso_defs = ciso8601_parse_datetime_def iso_fields_def days_in_month_def is_leap_def
  next_day_def strftime_def pad2_def pad4_def digit_char_def

lemmas tr_defs = transform_timestamp_fast_def transform_timestamp_try_def match_at_def

subsection \<open>Splitting, stripping and matching\<close>

lemma py_split_not_Nil: "py_split sep s \<noteq> []"
  by (induction s) (auto split: list.splits)

lemma py_split_no_sep: "x \<in> set (py_split sep s) \<Longrightarrow> sep \<notin> set x"
proof (induction s arbitrary: x)
  case Nil
  then show ?case by simp
next
  case (Cons c cs)
  show ?case
  proof (cases "c = sep")
    case True
    with Cons show ?thesis by auto
  next
    case False
    obtain y ys where ys: "py_split sep cs = y # ys"
      using py_split_not_Nil [of sep cs] by (cases "py_split sep cs") auto
    with False Cons.prems have "x = c # y \<or> x \<in> set ys" by auto
    then show ?thesis
      using Cons.IH [of y] Cons.IH [of x] ys False by auto
  qed
qed

lemma py_split_single: "sep \<notin> set s \<Longrightarrow> py_split sep s = [s]"
  by (induction s) auto

lemma set_strip_with: "set (strip_with P s) \<subseteq> set s"
proof -
  have "set (rev (dropWhile P (rev (dropWhile P s)))) \<subseteq> set (dropWhile P s)"
    using set_dropWhileD [of _ P "rev (dropWhile P s)"] by auto
  moreover have "set (dropWhile P s) \<subseteq> set s"
    using set_dropWhileD [of _ P s] by auto
  ultimately show ?thesis
    by (simp add: strip_with_def rstrip_with_def lstrip_with_def)
qed

lemma set_rstrip_with: "set (rstrip_with P s) \<subseteq> set s"
  using set_dropWhileD [of _ P "rev s"] by (auto simp: rstrip_with_def)

lemma set_py_replace: "set (py_replace old new s) \<subseteq> (set s - {old}) \<union> set new"
  by (induction s) (auto simp: py_replace_def)

lemma digits2_Some:
  "digits2 s = Some (d, r) \<Longrightarrow> \<exists>a b. d = [a, b] \<and> is_digit a \<and> is_digit b \<and> s = a # b # r"
  by (cases s rule: digits2.cases) (auto split: if_splits)

lemma lit_Some: "lit c s = Some r \<Longrightarrow> s = c # r"
  by (cases s) (auto split: if_splits)

lemma digits2_chars: "digits2 s = Some (d, r) \<Longrightarrow> list_all is_digit d"
  by (cases s rule: digits2.cases) (auto split: if_splits)

lemma match_at_chars:
  assumes "match_at s = Some (day, month, year, time_part)"
  shows "list_all is_digit day \<and> list_all is_digit month \<and> list_all is_digit year \<and>
         list_all (\<lambda>c. is_digit c \<or> c = CHR '':'') time_part"
proof -
  have w: "list_all is_digit d \<Longrightarrow> list_all (\<lambda>c. is_digit c \<or> c = CHR '':'') d" for d
    by (induction d) auto
  from assms show ?thesis
    unfolding match_at_def
    by (clarsimp simp: Option.bind_eq_Some_conv w dest!: digits2_chars)
qed

lemma re_search_Some:
  "re_search s = Some g \<Longrightarrow> \<exists>t. match_at t = Some g"
  by (induction s) (auto split: option.splits)

subsection \<open>The concrete scenario\<close>

lemma scenario_row1:
  "transform_timestamp_fast True ''Sa. 01.05.21 00:00:00;50'' =
     Inr (Some ''2021-05-01 00:00:00,50\<newline>'')"
  "transform_timestamp_fast False ''Sa. 01.05.21 00:00:00;50'' =
     Inr (Some ''2021-05-01 00:00:00,50\<newline>'')"
  by (simp_all add: tr_defs str_defs float_defs ciso_defs)

lemma scenario_row2:
  "transform_timestamp_fast True ''Sa. 01.05.21 00:00:01;50,5'' =
     Inr (Some ''2021-05-01 00:00:01,50.5\<newline>'')"
  "transform_timestamp_fast False ''Sa. 01.05.21 00:00:01;50,5'' =
     Inr (Some ''2021-05-01 00:00:01,50.5\<newline>'')"
  by (simp_all add: tr_defs str_defs float_defs ciso_defs)

lemma scenario_row3:
  "transform_timestamp_fast True ''garbage;xx'' = Inr None"
  "transform_timestamp_fast False ''garbage;xx'' = Inr None"
  by (simp_all add: tr_defs str_defs float_defs ciso_defs)

lemma scenario_values:
  "py_float_of_str ''50'' = Inr (Finite 50)"
  "py_float_of_str ''50.5'' = Inr (Finite (101 / 2))"
  by (simp_all add: str_defs float_defs)

text \<open>
  C3. Of the three lines \<open>Sa. 01.05.21 00:00:00;50\<close>, \<open>Sa. 01.05.21 00:00:01;50,5\<close> and
  \<open>garbage;xx\<close>, the normalizer accepts exactly the first two, as the rows
  \<open>2021-05-01 00:00:00\<close> with a value text that \<open>float\<close> reads as 50.0 and
  \<open>2021-05-01 00:00:01\<close> with one read as 50.5, and rejects the third; with the accelerated
  parser and without it.
\<close>

theorem C3_concrete_scenario:
  "transform_timestamp_fast ciso8601 ''Sa. 01.05.21 00:00:00;50'' =
     Inr (Some (''2021-05-01 00:00:00'' @ '','' @ ''50'' @ ''\<newline>'')) \<and>
   py_float_of_str ''50'' = Inr (Finite 50) \<and>
   transform_timestamp_fast ciso8601 ''Sa. 01.05.21 00:00:01;50,5'' =
     Inr (Some (''2021-05-01 00:00:01'' @ '','' @ ''50.5'' @ ''\<newline>'')) \<and>
   py_float_of_str ''50.5'' = Inr (Finite (101 / 2)) \<and>
   transform_timestamp_fast ciso8601 ''garbage;xx'' = Inr None"
proof (cases ciso8601)
  case True
  then show ?thesis
    using scenario_row1(1) scenario_row2(1) scenario_row3(1) scenario_values by simp
next
  case False
  then show ?thesis
    using scenario_row1(2) scenario_row2(2) scenario_row3(2) scenario_values by simp
qed

subsection \<open>Malformed lines\<close>

lemma malformed_lines:
  "transform_timestamp_fast True ''not-a-date;50'' = Inr None"
  "transform_timestamp_fast False ''not-a-date;50'' = Inr None"
  "transform_timestamp_fast True ''01.05.21 00:00:00'' = Inr None"
  "transform_timestamp_fast False ''01.05.21 00:00:00'' = Inr None"
  "transform_timestamp_fast True ''01.05.21 00:00:00;abc'' = Inr None"
  "transform_timestamp_fast False ''01.05.21 00:00:00;abc'' = Inr None"
  by (simp_all add: tr_defs str_defs float_defs ciso_defs)

lemma malformed_raise_inside:
  "transform_timestamp_try ciso8601 ''01.05.21 00:00:00;abc'' = Inl ValueError"
  "transform_timestamp_try True ''31.02.21 00:00:00;50'' = Inl ValueError"
  by (simp_all add: tr_defs str_defs float_defs ciso_defs)

lemma malformed_classes:
  "length (cols_of ''01.05.21 00:00:00'') < 2"
  "py_float_of_str (raw_freq_of ''01.05.21 00:00:00;abc'') = Inl ValueError"
  "re_search (raw_ts_of ''not-a-date;50'') = None"
  "re_search (raw_ts_of ''Sa. 31.02.21 00:00:00;50'') = Some (''31'', ''02'', ''21'', ''00:00:00'')"
  "ciso8601_parse_datetime (iso_string_of (''31'', ''02'', ''21'', ''00:00:00'')) = Inl ValueError"
  by (simp_all add: cols_of_def raw_freq_of_def raw_ts_of_def match_at_def str_defs float_defs
      ciso_defs)

text \<open>
  Without the accelerated parser a timestamp that the pattern matches is accepted as it
  is; the branch with the parser rejects the same line.
\<close>

lemma matched_timestamp_unchecked:
  "transform_timestamp_fast False ''Sa. 31.02.21 25:61:61;50'' =
     Inr (Some ''2021-02-31 25:61:61,50\<newline>'')"
  "transform_timestamp_fast True ''Sa. 31.02.21 25:61:61;50'' = Inr None"
  by (simp_all add: tr_defs str_defs float_defs ciso_defs)

text \<open>
  C6. For every input line the normalizer returns a result, a row or \<open>None\<close>, and never an
  exception: what \<open>float\<close> or the accelerated parser raise inside is caught. It rejects a
  line exactly when the line is malformed, that is, when it has fewer than two fields, or
  \<open>float\<close> refuses its value text, or the pattern finds no timestamp in its first field, or
  the accelerated parser is available and refuses the timestamp found. (An unparseable
  timestamp is thus one in which the pattern has no match; without the accelerated parser
  a matched one is not examined further.) The three malformed lines of the specification
  are rejected.
\<close>

theorem C6_never_raises:
  "(\<exists>r. transform_timestamp_fast ciso8601 line = Inr r) \<and>
   (transform_timestamp_fast ciso8601 line = Inr None \<longleftrightarrow>
      length (cols_of line) < 2 \<or>
      (\<exists>e. py_float_of_str (raw_freq_of line) = Inl e) \<or>
      re_search (raw_ts_of line) = None \<or>
      (ciso8601 \<and> (\<exists>g e. re_search (raw_ts_of line) = Some g \<and>
                         ciso8601_parse_datetime (iso_string_of g) = Inl e))) \<and>
   transform_timestamp_fast ciso8601 ''not-a-date;50'' = Inr None \<and>
   transform_timestamp_fast ciso8601 ''01.05.21 00:00:00'' = Inr None \<and>
   transform_timestamp_fast ciso8601 ''01.05.21 00:00:00;abc'' = Inr None"
proof -
  have a: "\<exists>r. transform_timestamp_fast ciso8601 line = Inr r"
    unfolding transform_timestamp_fast_def by (simp split: sum.splits)
  have b: "transform_timestamp_fast ciso8601 line = Inr None \<longleftrightarrow>
      length (cols_of line) < 2 \<or>
      (\<exists>e. py_float_of_str (raw_freq_of line) = Inl e) \<or>
      re_search (raw_ts_of line) = None \<or>
      (ciso8601 \<and> (\<exists>g e. re_search (raw_ts_of line) = Some g \<and>
                         ciso8601_parse_datetime (iso_string_of g) = Inl e))"
    unfolding transform_timestamp_fast_def transform_timestamp_try_def Let_def
      raw_freq_of_def raw_ts_of_def cols_of_def
    by (auto split: if_splits sum.splits option.splits prod.splits)
  have c:
    "transform_timestamp_fast ciso8601 ''not-a-date;50'' = Inr None \<and>
     transform_timestamp_fast ciso8601 ''01.05.21 00:00:00'' = Inr None \<and>
     transform_timestamp_fast ciso8601 ''01.05.21 00:00:00;abc'' = Inr None"
    using malformed_lines by (cases ciso8601) simp_all
  from a b c show ?thesis by blast
qed

theorem C6_never_raises_witness:
  "length (cols_of ''01.05.21 00:00:00'') < 2 \<and>
   transform_timestamp_fast False ''01.05.21 00:00:00'' = Inr None \<and>
   py_float_of_str (raw_freq_of ''01.05.21 00:00:00;abc'') = Inl ValueError \<and>
   transform_timestamp_fast False ''01.05.21 00:00:00;abc'' = Inr None \<and>
   re_search (raw_ts_of ''not-a-date;50'') = None \<and>
   transform_timestamp_fast False ''not-a-date;50'' = Inr None \<and>
   transform_timestamp_fast True ''Sa. 31.02.21 00:00:00;50'' = Inr None"
  using malformed_classes
    C6_never_raises [of False "''01.05.21 00:00:00''"]
    C6_never_raises [of False "''01.05.21 00:00:00;abc''"]
    C6_never_raises [of False "''not-a-date;50''"]
    C6_never_raises [of True "''Sa. 31.02.21 00:00:00;50''"]
  by simp

subsection \<open>The shape of an accepted row\<close>

lemma transform_accepts:
  assumes "transform_timestamp_fast ciso8601 line = Inr (Some out)"
  shows "2 \<le> length (cols_of line) \<and>
    (\<exists>x. py_float_of_str (raw_freq_of line) = Inr x) \<and>
    (\<exists>g. re_search (raw_ts_of line) = Some g \<and>
       (if ciso8601
        then \<exists>dt. ciso8601_parse_datetime (iso_string_of g) = Inr dt \<and>
               out = strftime dt @ '','' @ raw_freq_of line @ ''\<newline>''
        else out = iso_string_of g @ '','' @ raw_freq_of line @ ''\<newline>''))"
proof -
  from assms have t: "transform_timestamp_try ciso8601 line = Inr (Some out)"
    unfolding transform_timestamp_fast_def by (simp split: sum.splits)
  then show ?thesis
    unfolding transform_timestamp_try_def Let_def raw_freq_of_def raw_ts_of_def cols_of_def
    by (auto split: if_splits sum.splits option.splits prod.splits)
qed

lemma is_digit_digit_char: "is_digit (digit_char n)"
  unfolding digit_char_def is_digit_def by (rule nth_mem) simp

lemma strftime_chars:
  "list_all (\<lambda>c. is_digit c \<or> c = CHR '':'' \<or> c = CHR ''-'' \<or> c = CHR '' '') (strftime dt)"
  by (simp add: strftime_def pad2_def pad4_def is_digit_digit_char)

lemma not_digit_sep: "\<not> is_digit (CHR '';'')" "\<not> is_digit (CHR '','')"
  by (simp_all add: is_digit_def)

lemma accepted_row_no_semicolon:
  assumes "transform_timestamp_fast ciso8601 line = Inr (Some out)"
  shows "CHR '';'' \<notin> set out"
proof -
  from transform_accepts [OF assms] obtain g where
    len: "2 \<le> length (cols_of line)" and
    g: "re_search (raw_ts_of line) = Some g" and
    c: "if ciso8601
        then \<exists>dt. ciso8601_parse_datetime (iso_string_of g) = Inr dt \<and>
               out = strftime dt @ '','' @ raw_freq_of line @ ''\<newline>''
        else out = iso_string_of g @ '','' @ raw_freq_of line @ ''\<newline>''"
    by blast
  from len have "cols_of line ! 1 \<in> set (cols_of line)" by simp
  then have "CHR '';'' \<notin> set (cols_of line ! 1)"
    unfolding cols_of_def by (rule py_split_no_sep)
  then have "CHR '';'' \<notin> set (py_strip_chars [CHR 0x22] (py_strip (cols_of line ! 1)))"
    using set_strip_with unfolding py_strip_chars_def py_strip_def by blast
  then have f: "CHR '';'' \<notin> set (raw_freq_of line)"
    using set_py_replace [of "CHR '',''" "''.''" "py_strip_chars [CHR 0x22] (py_strip (cols_of line ! 1))"]
    unfolding raw_freq_of_def by auto
  obtain day month year time_part where gd: "g = (day, month, year, time_part)"
    by (cases g) auto
  from g obtain t where "match_at t = Some g"
    using re_search_Some by blast
  then have m: "list_all is_digit day" "list_all is_digit month" "list_all is_digit year"
    "list_all (\<lambda>c. is_digit c \<or> c = CHR '':'') time_part"
    using match_at_chars unfolding gd by blast+
  have iso: "CHR '';'' \<notin> set (iso_string_of g)"
    using m unfolding gd by (fastforce simp: list_all_iff not_digit_sep)
  show ?thesis
  proof (cases ciso8601)
    case True
    with c obtain dt where o: "out = strftime dt @ '','' @ raw_freq_of line @ ''\<newline>''"
      by auto
    have "CHR '';'' \<notin> set (strftime dt)"
      using strftime_chars [of dt] by (fastforce simp: list_all_iff not_digit_sep)
    with o f show ?thesis by simp
  next
    case False
    with c have "out = iso_string_of g @ '','' @ raw_freq_of line @ ''\<newline>''"
      by simp
    with iso f show ?thesis by simp
  qed
qed

lemma no_semicolon_rejected:
  assumes "CHR '';'' \<notin> set s"
  shows "transform_timestamp_fast ciso8601 s = Inr None"
proof -
  have "CHR '';'' \<notin> set (py_rstrip_chars [CHR 0x0A] s)"
    using assms set_rstrip_with unfolding py_rstrip_chars_def by blast
  then have "py_split (CHR '';'') (py_rstrip_chars [CHR 0x0A] s) = [py_rstrip_chars [CHR 0x0A] s]"
    by (rule py_split_single)
  then show ?thesis
    unfolding transform_timestamp_fast_def transform_timestamp_try_def by simp
qed

subsection \<open>Re-applying the normalizer to its own output\<close>

text \<open>
  C4 as stated fails: the canonical output is comma-separated and has no \<open>;\<close>, so the
  normalizer, applied to the row it produced, finds one field only and rejects it.
\<close>

theorem C4_reapplication_counterexample:
  "transform_timestamp_fast True ''Sa. 01.05.21 00:00:00;50'' =
     Inr (Some ''2021-05-01 00:00:00,50\<newline>'') \<and>
   transform_timestamp_fast True ''2021-05-01 00:00:00,50\<newline>'' = Inr None \<and>
   transform_timestamp_fast False ''Sa. 01.05.21 00:00:00;50'' =
     Inr (Some ''2021-05-01 00:00:00,50\<newline>'') \<and>
   transform_timestamp_fast False ''2021-05-01 00:00:00,50\<newline>'' = Inr None"
  by (simp add: tr_defs str_defs float_defs ciso_defs)

text \<open>
  C4, amended. The normalizer is a function of the line (equal lines give equal results),
  and it is not idempotent on its output: for every accepted line, the row it produced is
  rejected when the normalizer is applied to it, with the accelerated parser or without.
\<close>

theorem C4_deterministic_output_rejected:
  assumes "transform_timestamp_fast ciso8601 line = Inr (Some out)"
  shows "transform_timestamp_fast again out = Inr None \<and>
         (line' = line \<longrightarrow> transform_timestamp_fast ciso8601 line' = Inr (Some out))"
  using assms accepted_row_no_semicolon [OF assms] no_semicolon_rejected [of out again]
  by simp

theorem C4_deterministic_output_rejected_witness:
  "transform_timestamp_fast True ''Sa. 01.05.21 00:00:00;50'' =
     Inr (Some ''2021-05-01 00:00:00,50\<newline>'') \<and>
   transform_timestamp_fast False ''2021-05-01 00:00:00,50\<newline>'' = Inr None"
  using scenario_row1(1)
    C4_deterministic_output_rejected [OF scenario_row1(1), of False "''x''"]
  by simp

subsection \<open>What an accepted row holds\<close>

lemma digit_val_le: "is_digit c \<Longrightarrow> digit_val c \<le> 9"
  by (auto simp: is_digit_def digit_val_def)

lemma digits2_val:
  assumes "digits2 s = Some (d, r)"
  shows "nat_of_digits d \<le> 99"
proof -
  from digits2_Some [OF assms] obtain a b where
    d: "d = [a, b]" and a: "is_digit a" and b: "is_digit b" by blast
  have "nat_of_digits d = 10 * digit_val a + digit_val b"
    unfolding d nat_of_digits_def by simp
  then show ?thesis
    using digit_val_le [OF a] digit_val_le [OF b] by simp
qed

lemma digits2_val4:
  assumes "digits2 s = Some (c, r)" "digits2 s' = Some (y, r')"
  shows "nat_of_digits (c @ y) \<le> 9999"
proof -
  have "nat_of_digits (c @ y) = 100 * nat_of_digits c + nat_of_digits y"
    using digits2_Some [OF assms(1)] digits2_Some [OF assms(2)]
    by (auto simp: nat_of_digits_def)
  then show ?thesis
    using digits2_val [OF assms(1)] digits2_val [OF assms(2)] by simp
qed

lemma iso_fields_year:
  assumes "iso_fields s = Some (y, mo, d, h, mi, se)"
  shows "y \<le> 9999"
  using assms digits2_val4 unfolding iso_fields_def
  by (auto simp: Option.bind_eq_Some_conv split: if_splits)

lemma days_in_month_bounds: "28 \<le> days_in_month y m \<and> days_in_month y m \<le> 31"
  by (simp add: days_in_month_def)

lemma valid_next_day:
  assumes "1 \<le> y" "y \<le> 9999" "1 \<le> mo" "mo \<le> 12" "1 \<le> d" "d \<le> days_in_month y mo"
    "\<not> (y = 9999 \<and> mo = 12 \<and> d = 31)"
  shows "valid_datetime (next_day \<lparr>d_year = y, d_month = mo, d_day = d,
           d_hour = 0, d_minute = 0, d_second = 0\<rparr>)"
proof -
  have b: "28 \<le> days_in_month y' m'" for y' m'
    using days_in_month_bounds [of y' m'] by simp
  have e: "days_in_month y 12 = 31"
    by (simp add: days_in_month_def)
  show ?thesis
    using assms b [of y "mo + 1"] b [of "y + 1" 1] e
    unfolding valid_datetime_def next_day_def
    by (auto simp: not_less le_Suc_eq)
qed

lemma ciso8601_valid:
  assumes "ciso8601_parse_datetime s = Inr dt"
  shows "valid_datetime dt"
proof -
  from assms obtain y mo d h mi se where f: "iso_fields s = Some (y, mo, d, h, mi, se)"
    unfolding ciso8601_parse_datetime_def by (auto split: option.splits)
  have y: "y \<le> 9999" using iso_fields_year [OF f] .
  show ?thesis
  proof (cases "h = 24 \<and> mi = 0 \<and> se = 0")
    case True
    with assms f have
      "1 \<le> y \<and> 1 \<le> mo \<and> mo \<le> 12 \<and> 1 \<le> d \<and> d \<le> days_in_month y mo \<and>
       \<not> (y = 9999 \<and> mo = 12 \<and> d = 31) \<and>
       dt = next_day \<lparr>d_year = y, d_month = mo, d_day = d,
           d_hour = 0, d_minute = 0, d_second = 0\<rparr>"
      unfolding ciso8601_parse_datetime_def by (auto split: if_splits)
    with y show ?thesis
      using valid_next_day [of y mo d] by blast
  next
    case False
    with assms f y show ?thesis
      unfolding ciso8601_parse_datetime_def valid_datetime_def
      by (auto split: if_splits)
  qed
qed

lemma raw_freq_no_comma: "CHR '','' \<notin> set (raw_freq_of line)"
  using set_py_replace [of "CHR '',''" "''.''"] unfolding raw_freq_of_def by fastforce

lemma nonfinite_rows:
  "transform_timestamp_fast True ''Sa. 01.05.21 00:00:00;nan'' =
     Inr (Some ''2021-05-01 00:00:00,nan\<newline>'')"
  "transform_timestamp_fast False ''Sa. 01.05.21 00:00:00;nan'' =
     Inr (Some ''2021-05-01 00:00:00,nan\<newline>'')"
  "transform_timestamp_fast True ''Sa. 01.05.21 00:00:00;-inf'' =
     Inr (Some ''2021-05-01 00:00:00,-inf\<newline>'')"
  "transform_timestamp_fast False ''Sa. 01.05.21 00:00:00;-inf'' =
     Inr (Some ''2021-05-01 00:00:00,-inf\<newline>'')"
  by (simp_all add: tr_defs str_defs float_defs ciso_defs)

lemma nonfinite_values:
  "py_float_of_str ''nan'' = Inr NaN"
  "py_float_of_str ''-inf'' = Inr NegInf"
  by (simp_all add: str_defs float_defs)

text \<open>
  Without the accelerated parser the digits of the match are copied unchecked, while the
  branch with the parser rejects the same line.
\<close>

lemma fallback_copies_digits:
  "transform_timestamp_fast False ''Sa. 99.99.21 00:00:00;50'' =
     Inr (Some ''2021-99-99 00:00:00,50\<newline>'')"
  "transform_timestamp_fast True ''Sa. 99.99.21 00:00:00;50'' = Inr None"
  by (simp_all add: tr_defs str_defs float_defs ciso_defs)

text \<open>
  C5 as stated fails: \<open>float\<close> accepts \<open>nan\<close> and the infinities, and the normalizer has no
  check of finiteness, so a row can carry a value that is not finite.
\<close>

theorem C5_nonfinite_counterexample:
  "transform_timestamp_fast True ''Sa. 01.05.21 00:00:00;nan'' =
     Inr (Some (''2021-05-01 00:00:00'' @ '','' @ ''nan'' @ ''\<newline>'')) \<and>
   py_float_of_str ''nan'' = Inr NaN \<and>
   transform_timestamp_fast False ''Sa. 01.05.21 00:00:00;-inf'' =
     Inr (Some (''2021-05-01 00:00:00'' @ '','' @ ''-inf'' @ ''\<newline>'')) \<and>
   py_float_of_str ''-inf'' = Inr NegInf"
  using nonfinite_rows nonfinite_values by simp

text \<open>
  C5, amended. Every row the normalizer produces is \<open>ts,v\<close> and a newline, where \<open>v\<close> is
  the second field, stripped, with every comma replaced by a dot, and \<open>float\<close> accepts \<open>v\<close>
  (as a finite number, an infinity or nan); when the accelerated parser is available,
  \<open>ts\<close> is the rendering of a valid calendar date and time of day.
\<close>

theorem C5_row_invariant:
  assumes "transform_timestamp_fast ciso8601 line = Inr (Some out)"
  shows "\<exists>ts x. out = ts @ '','' @ raw_freq_of line @ ''\<newline>'' \<and>
           py_float_of_str (raw_freq_of line) = Inr x \<and>
           CHR '','' \<notin> set (raw_freq_of line) \<and>
           (ciso8601 \<longrightarrow> (\<exists>dt. valid_datetime dt \<and> ts = strftime dt))"
proof -
  from transform_accepts [OF assms] obtain x g where
    x: "py_float_of_str (raw_freq_of line) = Inr x" and
    c: "if ciso8601
        then \<exists>dt. ciso8601_parse_datetime (iso_string_of g) = Inr dt \<and>
               out = strftime dt @ '','' @ raw_freq_of line @ ''\<newline>''
        else out = iso_string_of g @ '','' @ raw_freq_of line @ ''\<newline>''"
    by blast
  show ?thesis
  proof (cases ciso8601)
    case True
    with c obtain dt where "ciso8601_parse_datetime (iso_string_of g) = Inr dt"
      and o: "out = strftime dt @ '','' @ raw_freq_of line @ ''\<newline>''"
      by auto
    then have "valid_datetime dt" using ciso8601_valid by blast
    with o x raw_freq_no_comma show ?thesis by blast
  next
    case False
    with c x raw_freq_no_comma show ?thesis by auto
  qed
qed

theorem C5_row_invariant_witness:
  "transform_timestamp_fast True ''Sa. 01.05.21 00:00:01;50,5'' =
     Inr (Some ''2021-05-01 00:00:01,50.5\<newline>'') \<and>
   (\<exists>ts x. ''2021-05-01 00:00:01,50.5\<newline>'' =
        ts @ '','' @ raw_freq_of ''Sa. 01.05.21 00:00:01;50,5'' @ ''\<newline>'' \<and>
      py_float_of_str (raw_freq_of ''Sa. 01.05.21 00:00:01;50,5'') = Inr x \<and>
      (\<exists>dt. valid_datetime dt \<and> ts = strftime dt))"
  using scenario_row2(1) C5_row_invariant [OF scenario_row2(1)] by blast


section \<open>Properties of the worker pool and of the transform phase\<close>

lemma chunks_of_Nil: "chunks_of n [] = []"
  by (subst chunks_of.simps) simp

lemma chunks_of_step:
  "0 < n \<Longrightarrow> xs \<noteq> [] \<Longrightarrow> chunks_of n xs = take n xs # chunks_of n (drop n xs)"
  by (subst chunks_of.simps) simp

lemma concat_chunks_of: "0 < n \<Longrightarrow> concat (chunks_of n xs) = xs"
proof (induction n xs rule: chunks_of.induct)
  case (1 n xs)
  show ?case
  proof (cases "xs = []")
    case True
    then show ?thesis by (simp add: chunks_of_Nil)
  next
    case False
    with 1 show ?thesis by (simp add: chunks_of_step)
  qed
qed

lemma choice_in_range: "0 < p \<Longrightarrow> ys \<noteq> [] \<Longrightarrow> k mod (min p (length ys)) < length ys"
proof -
  assume "0 < p" "ys \<noteq> []"
  then have "0 < min p (length ys)" by simp
  then have "k mod (min p (length ys)) < min p (length ys)" by (rule mod_less_divisor)
  then show ?thesis by simp
qed

lemma mset_remove_nth:
  "i < length ys \<Longrightarrow> mset (ys ! i # take i ys @ drop (Suc i) ys) = mset ys"
proof -
  assume "i < length ys"
  then have "ys = take i ys @ ys ! i # drop (Suc i) ys" by (rule id_take_nth_drop)
  then have "mset ys = mset (take i ys @ ys ! i # drop (Suc i) ys)" by simp
  then show ?thesis by simp
qed

lemma completion_order_mset:
  "0 < p \<Longrightarrow> mset (completion_order p ks ys) = mset ys"
proof (induction ks arbitrary: ys)
  case Nil
  then show ?case by simp
next
  case (Cons k ks)
  show ?case
  proof (cases "ys = []")
    case True
    then show ?thesis by simp
  next
    case False
    let ?i = "k mod (min p (length ys))"
    have i: "?i < length ys" using choice_in_range [OF Cons.prems False] .
    have "mset (completion_order p (k # ks) ys)
            = mset (ys ! ?i # take ?i ys @ drop (Suc ?i) ys)"
      using False Cons.IH [OF Cons.prems, of "take ?i ys @ drop (Suc ?i) ys"]
      by (simp add: Let_def)
    then show ?thesis using mset_remove_nth [OF i] by simp
  qed
qed

lemma completion_order_map:
  "0 < p \<Longrightarrow> completion_order p ks (map f ys) = map f (completion_order p ks ys)"
proof (induction ks arbitrary: ys)
  case Nil
  then show ?case by simp
next
  case (Cons k ks)
  show ?case
  proof (cases "ys = []")
    case True
    then show ?thesis by simp
  next
    case False
    let ?i = "k mod (min p (length ys))"
    have i: "?i < length ys" using choice_in_range [OF Cons.prems False] .
    show ?thesis
      using False i Cons.IH [OF Cons.prems, of "take ?i ys @ drop (Suc ?i) ys"]
      by (simp add: Let_def take_map drop_map)
  qed
qed

lemma completion_order_one: "completion_order 1 ks ys = ys"
proof (induction ks arbitrary: ys)
  case Nil
  then show ?case by simp
next
  case (Cons k ks)
  then show ?case by (cases ys) (simp_all add: Let_def)
qed

lemma mset_concat_perm: "mset xss = mset yss \<Longrightarrow> mset (concat xss) = mset (concat yss)"
proof -
  assume a: "mset xss = mset yss"
  have "mset (concat zss) = sum_mset (image_mset mset (mset zss))" for zss :: "'a list list"
    by (induction zss) simp_all
  with a show ?thesis by simp
qed

lemma pool_results_mset:
  assumes "0 < p" "0 < n"
  shows "mset (pool_results p ks g xs n) = mset (map g xs)"
proof -
  have a: "mset (pool_results p ks g xs n) = mset (concat (map (map g) (chunks_of n xs)))"
    unfolding pool_results_def
    by (rule mset_concat_perm) (rule completion_order_mset [OF assms(1)])
  have b: "concat (map (map g) (chunks_of n xs)) = map g (concat (chunks_of n xs))"
    by (simp only: map_concat)
  show ?thesis
    unfolding a b concat_chunks_of [OF assms(2)] ..
qed

lemma pool_results_one:
  assumes "0 < n"
  shows "pool_results 1 ks g xs n = map g xs"
proof -
  have b: "concat (map (map g) (chunks_of n xs)) = map g (concat (chunks_of n xs))"
    by (simp only: map_concat)
  show ?thesis
    unfolding pool_results_def completion_order_one b concat_chunks_of [OF assms] ..
qed

lemma transform_is_Inr: "transform_timestamp_fast c l = Inr (normalized c l)"
  unfolding normalized_def transform_timestamp_fast_def by (simp split: sum.splits)

lemma collect_results_Inr: "collect_results (map Inr xs) acc = Inr (acc @ xs)"
  by (induction xs arbitrary: acc) simp_all

lemma imap_unordered_total:
  assumes "0 < p"
  shows "imap_unordered p ks (\<lambda>x. Inr (g x)) xs n = map Inr (pool_results p ks g xs n)"
proof -
  let ?cs = "map (map g) (chunks_of n xs)"
  have h: "map (map (\<lambda>x. Inr (g x))) (chunks_of n xs) = map (map Inr) ?cs"
    by simp
  have "imap_unordered p ks (\<lambda>x. Inr (g x)) xs n
               = concat (completion_order p ks (map (map Inr) ?cs))"
    unfolding imap_unordered_def by (simp only: h)
  also have "\<dots> = concat (map (map Inr) (completion_order p ks ?cs))"
    by (simp only: completion_order_map [OF assms])
  also have "\<dots> = map Inr (concat (completion_order p ks ?cs))"
    by (simp only: map_concat)
  finally show ?thesis
    unfolding pool_results_def .
qed

lemma transform_phase_result:
  assumes "0 < n"
  shows "transform_phase c n ks lines =
     Inr (pool_results n ks (normalized c) lines 1000,
          List.map_filter (\<lambda>line. line) (pool_results n ks (normalized c) lines 1000),
          length (List.map_filter (\<lambda>line. line) (pool_results n ks (normalized c) lines 1000)),
          int (length lines)
            - int (length (List.map_filter (\<lambda>line. line) (pool_results n ks (normalized c) lines 1000))))"
proof -
  have f: "transform_timestamp_fast c = (\<lambda>x. Inr (normalized c x))"
    by (rule ext) (rule transform_is_Inr)
  show ?thesis
    unfolding transform_phase_def f imap_unordered_total [OF assms]
    using assms by (simp add: Let_def collect_results_Inr)
qed

lemma map_filter_id_mset:
  assumes "mset rs = mset (map g xs)"
  shows "mset (List.map_filter (\<lambda>line. line) rs) = mset (List.map_filter g xs)"
proof -
  have "mset (List.map_filter (\<lambda>line. line) rs)
          = image_mset the (filter_mset (\<lambda>r. r \<noteq> None) (mset rs))"
    by (simp add: List.map_filter_def comp_def)
  also have "\<dots> = image_mset the (filter_mset (\<lambda>r. r \<noteq> None) (image_mset g (mset xs)))"
    using assms by simp
  also have "\<dots> = mset (List.map_filter g xs)"
    by (simp add: List.map_filter_def filter_mset_image_mset comp_def multiset.map_comp)
  finally show ?thesis .
qed

lemma length_map_filter: "length (List.map_filter g xs) = length (filter (\<lambda>x. g x \<noteq> None) xs)"
  by (simp add: List.map_filter_def)


text \<open>
  C2. When the transform phase completes, \<open>cleaned_count + skipped_count\<close> is the number
  of data lines; the results collected are, up to their order, the results of the lines,
  one for each line; the accepted rows are the rows of the accepted lines, and the two
  counts are the numbers of accepted and of rejected lines. With at least one process the
  phase does complete, whatever the order in which the chunks come back.
\<close>

theorem C2_every_line_counted:
  "(0 < num_cpus \<longrightarrow> (\<exists>r. transform_phase ciso8601 num_cpus choices lines = Inr r)) \<and>
   (transform_phase ciso8601 num_cpus choices lines =
      Inr (transformed_lines, cleaned_lines, cleaned_count, skipped_count) \<longrightarrow>
    int cleaned_count + skipped_count = int (length lines) \<and>
    mset transformed_lines = mset (map (normalized ciso8601) lines) \<and>
    mset cleaned_lines = mset (List.map_filter (normalized ciso8601) lines) \<and>
    cleaned_count = length (filter (accepts ciso8601) lines) \<and>
    skipped_count = int (length (filter (\<lambda>l. \<not> accepts ciso8601 l) lines)))"
proof (cases "0 < num_cpus")
  case False
  then show ?thesis
    unfolding transform_phase_def by simp
next
  case True
  let ?R = "pool_results num_cpus choices (normalized ciso8601) lines 1000"
  let ?C = "List.map_filter (\<lambda>line. line) ?R"
  note r = transform_phase_result [OF True, of ciso8601 choices lines]
  have m: "mset ?R = mset (map (normalized ciso8601) lines)"
    using True by (simp add: pool_results_mset)
  have c: "mset ?C = mset (List.map_filter (normalized ciso8601) lines)"
    using m by (rule map_filter_id_mset)
  have "length ?C = length (List.map_filter (normalized ciso8601) lines)"
    using c by (rule mset_eq_length)
  then have n: "length ?C = length (filter (accepts ciso8601) lines)"
    unfolding accepts_def by (simp add: length_map_filter)
  have s: "length (filter (accepts ciso8601) lines)
             + length (filter (\<lambda>l. \<not> accepts ciso8601 l) lines) = length lines"
    by (rule sum_length_filter_compl)
  have "int (length lines) - int (length ?C)
          = int (length (filter (\<lambda>l. \<not> accepts ciso8601 l) lines))"
    using n s by simp
  with r m c n show ?thesis by auto
qed

lemma scenario_lines_normalized:
  "normalized True ''Sa. 01.05.21 00:00:00;50\<newline>'' = Some ''2021-05-01 00:00:00,50\<newline>''"
  "normalized True ''Sa. 01.05.21 00:00:01;50,5\<newline>'' = Some ''2021-05-01 00:00:01,50.5\<newline>''"
  "normalized True ''garbage;xx\<newline>'' = None"
  by (simp_all add: normalized_def tr_defs str_defs float_defs ciso_defs)

lemma chunks_of_small:
  "chunks_of 1000 [a, b] = [[a, b]]" "chunks_of 1000 [a, b, c] = [[a, b, c]]"
  by (simp_all add: chunks_of_step chunks_of_Nil)

lemma scenario_transform_phase:
  "transform_phase True 4 [3, 1] (drop 1 scenario_file) =
     Inr ([Some ''2021-05-01 00:00:00,50\<newline>'', Some ''2021-05-01 00:00:01,50.5\<newline>'', None],
          [''2021-05-01 00:00:00,50\<newline>'', ''2021-05-01 00:00:01,50.5\<newline>''], 2, 1)"
  unfolding scenario_file_def
  by (simp add: transform_phase_result pool_results_def chunks_of_small
      scenario_lines_normalized List.map_filter_def)

theorem C2_every_line_counted_witness:
  "(0::nat) < 4 \<and>
   transform_phase True 4 [3, 1] (drop 1 scenario_file) =
     Inr ([Some ''2021-05-01 00:00:00,50\<newline>'', Some ''2021-05-01 00:00:01,50.5\<newline>'', None],
          [''2021-05-01 00:00:00,50\<newline>'', ''2021-05-01 00:00:01,50.5\<newline>''], 2, 1) \<and>
   int 2 + 1 = int (length (drop 1 scenario_file)) \<and>
   2 = length (filter (accepts True) (drop 1 scenario_file)) \<and>
   (1::int) = int (length (filter (\<lambda>l. \<not> accepts True l) (drop 1 scenario_file)))"
  using scenario_transform_phase
    C2_every_line_counted [of 4 True "[3, 1]" "drop 1 scenario_file"
      "[Some ''2021-05-01 00:00:00,50\<newline>'', Some ''2021-05-01 00:00:01,50.5\<newline>'', None]"
      "[''2021-05-01 00:00:00,50\<newline>'', ''2021-05-01 00:00:01,50.5\<newline>'']" 2 1]
  by simp

section \<open>The order of the results does not reach the store\<close>

lemma py_split_append:
  "py_split sep (a @ sep # b) = py_split sep a @ py_split sep b"
proof (induction a)
  case Nil
  then show ?case by simp
next
  case (Cons c a)
  obtain x xs where x: "py_split sep a = x # xs"
    using py_split_not_Nil [of sep a] by (cases "py_split sep a") auto
  with Cons show ?case by simp
qed

lemma csv_lines_Nil: "csv_lines [] = []"
  by (simp add: csv_lines_def)

lemma csv_lines_line:
  "csv_lines ((b @ [CHR 0x0A]) @ r) = py_split (CHR 0x0A) b @ csv_lines r"
proof -
  have "py_split (CHR 0x0A) ((b @ [CHR 0x0A]) @ r)
          = py_split (CHR 0x0A) b @ py_split (CHR 0x0A) r"
    using py_split_append [of "CHR 0x0A" b r] by simp
  then show ?thesis
    using py_split_not_Nil [of "CHR 0x0A" r]
    by (simp add: csv_lines_def Let_def butlast_append)
qed

lemma csv_lines_concat:
  assumes "\<forall>l \<in> set ls. \<exists>b. l = b @ [CHR 0x0A]"
  shows "csv_lines (concat ls) = concat (map csv_lines ls)"
  using assms
proof (induction ls)
  case Nil
  then show ?case by (simp add: csv_lines_Nil)
next
  case (Cons l ls)
  then obtain b where b: "l = b @ [CHR 0x0A]" by auto
  have "csv_lines (l @ concat ls) = py_split (CHR 0x0A) b @ csv_lines (concat ls)"
    unfolding b by (rule csv_lines_line)
  moreover have "csv_lines l = py_split (CHR 0x0A) b"
    using csv_lines_line [of b "[]"] unfolding b by (simp add: csv_lines_Nil)
  ultimately show ?case using Cons by simp
qed

lemma accepted_row_ends_newline:
  assumes "normalized c l = Some out"
  shows "\<exists>b. out = b @ [CHR 0x0A]"
proof -
  have "transform_timestamp_fast c l = Inr (Some out)"
    using assms transform_is_Inr [of c l] by simp
  from transform_accepts [OF this] show ?thesis
    by (cases c) auto
qed

lemma cleaned_lines_end_newline:
  assumes "mset rs = mset (map (normalized c) xs)"
  shows "\<forall>l \<in> set (List.map_filter (\<lambda>line. line) rs). \<exists>b. l = b @ [CHR 0x0A]"
proof
  fix l assume "l \<in> set (List.map_filter (\<lambda>line. line) rs)"
  then have "Some l \<in> set rs"
    by (auto simp: List.map_filter_def)
  then have "Some l \<in> set (map (normalized c) xs)"
    using mset_eq_setD [OF assms] by simp
  then obtain x where "normalized c x = Some l" by auto
  then show "\<exists>b. l = b @ [CHR 0x0A]" by (rule accepted_row_ends_newline)
qed

lemma copy_from_ok:
  "copy_ok pg ls rs \<Longrightarrow> copy_from pg ls rs = Inr (rs @ map (\<lambda>l. the (pg l)) ls)"
proof (induction ls arbitrary: rs)
  case Nil
  then show ?case by simp
next
  case (Cons l ls)
  from Cons.prems obtain t v where p: "pg l = Some (t, v)"
    unfolding copy_ok_def by (cases "pg l") auto
  from Cons.prems p have n: "t \<notin> set (map fst rs)"
    unfolding copy_ok_def by auto
  from Cons.prems p have "copy_ok pg ls (rs @ [(t, v)])"
    unfolding copy_ok_def by auto
  from Cons.IH [OF this] p n show ?case by simp
qed

lemma copy_from_not_ok:
  "\<not> copy_ok pg ls rs \<Longrightarrow> \<exists>e. copy_from pg ls rs = Inl e"
proof (induction ls arbitrary: rs)
  case Nil
  then show ?case by (simp add: copy_ok_def)
next
  case (Cons l ls)
  show ?case
  proof (cases "pg l")
    case None
    then show ?thesis by simp
  next
    case (Some r)
    obtain t v where r: "r = (t, v)" by (cases r)
    show ?thesis
    proof (cases "t \<in> set (map fst rs)")
      case True
      with Some r show ?thesis by simp
    next
      case False
      with Cons.prems Some r have "\<not> copy_ok pg ls (rs @ [(t, v)])"
        unfolding copy_ok_def by auto
      from Cons.IH [OF this] Some r False show ?thesis by simp
    qed
  qed
qed

lemma copy_ok_perm:
  assumes "mset ls = mset ls'"
  shows "copy_ok pg ls rs = copy_ok pg ls' rs"
proof -
  have s: "set ls = set ls'" using assms by (rule mset_eq_setD)
  have "mset (map (\<lambda>l. fst (the (pg l))) ls) = mset (map (\<lambda>l. fst (the (pg l))) ls')"
    using assms by simp
  then have "distinct (map (\<lambda>l. fst (the (pg l))) ls) = distinct (map (\<lambda>l. fst (the (pg l))) ls')"
    by (rule mset_eq_imp_distinct_iff)
  with s show ?thesis
    unfolding copy_ok_def by (simp add: list_all_iff)
qed

lemma copy_expert_perm:
  assumes "mset (csv_lines data1) = mset (csv_lines data2)"
  shows "(\<exists>e1 e2. copy_expert pg t data1 conn = Inl e1 \<and> copy_expert pg t data2 conn = Inl e2) \<or>
         (\<exists>c1 c2. copy_expert pg t data1 conn = Inr c1 \<and> copy_expert pg t data2 conn = Inr c2 \<and>
            loaded_rows (working c1) = loaded_rows (working c2))"
proof (cases "tables (working conn) t")
  case None
  then show ?thesis by (simp add: copy_expert_def)
next
  case (Some rel)
  show ?thesis
  proof (cases "copy_ok pg (csv_lines data1) (rows rel)")
    case True
    then have t2: "copy_ok pg (csv_lines data2) (rows rel)"
      using copy_ok_perm [OF assms, of pg "rows rel"] by simp
    have "set (csv_lines data1) = set (csv_lines data2)"
      using assms by (rule mset_eq_setD)
    then have "loaded_rows
        (working (on_tables (\<lambda>ts. ts(t \<mapsto> rel\<lparr>rows := rows rel @ map (\<lambda>l. the (pg l)) (csv_lines data1)\<rparr>)) conn))
      = loaded_rows
        (working (on_tables (\<lambda>ts. ts(t \<mapsto> rel\<lparr>rows := rows rel @ map (\<lambda>l. the (pg l)) (csv_lines data2)\<rparr>)) conn))"
      by (auto simp: loaded_rows_def on_tables_def fun_eq_iff)
    then show ?thesis
      using Some copy_from_ok [OF True] copy_from_ok [OF t2]
      by (simp add: copy_expert_def)
  next
    case False
    then have f2: "\<not> copy_ok pg (csv_lines data2) (rows rel)"
      using copy_ok_perm [OF assms, of pg "rows rel"] by simp
    from copy_from_not_ok [OF False] copy_from_not_ok [OF f2] Some show ?thesis
      by (auto simp: copy_expert_def)
  qed
qed

lemma ingest_parallel_try_unfold:
  assumes "0 < cpu_count env"
  shows "ingest_parallel_try env t conn =
     (case ensure_table_and_hypertable conn t True of
        (conn1, Some e) \<Rightarrow> (conn1, Inl e)
      | (conn1, None) \<Rightarrow>
          (case file_lines env of
             None \<Rightarrow> (conn1, Inl OSError)
           | Some ls \<Rightarrow>
               if length (drop 1 ls) = 0 then (conn1, Inr NoDataRows)
               else
                 (case copy_expert (pg_row env) t (concat (cleaned_lines_of env (drop 1 ls))) conn1 of
                    Inl e \<Rightarrow> (conn1, Inl e)
                  | Inr conn2 \<Rightarrow>
                      (commit conn2,
                       Inr (Ingested (length (cleaned_lines_of env (drop 1 ls)))
                             (int (length (drop 1 ls))
                               - int (length (cleaned_lines_of env (drop 1 ls)))))))))"
  unfolding ingest_parallel_try_def cleaned_lines_of_def
  by (simp add: transform_phase_result [OF assms] Let_def
      split: prod.splits option.splits sum.splits)

lemma cleaned_lines_of_mset:
  assumes "0 < cpu_count env"
  shows "mset (cleaned_lines_of env lines)
           = mset (List.map_filter (normalized (has_ciso8601 env)) lines)"
  unfolding cleaned_lines_of_def
  by (rule map_filter_id_mset) (simp add: pool_results_mset assms)

lemma cleaned_lines_of_csv:
  assumes "0 < cpu_count env"
  shows "csv_lines (concat (cleaned_lines_of env lines))
           = concat (map csv_lines (cleaned_lines_of env lines))"
proof (rule csv_lines_concat)
  have "mset (pool_results (cpu_count env) (completions env) (normalized (has_ciso8601 env)) lines 1000)
          = mset (map (normalized (has_ciso8601 env)) lines)"
    using assms by (simp add: pool_results_mset)
  then show "\<forall>l \<in> set (cleaned_lines_of env lines). \<exists>b. l = b @ [CHR 0x0A]"
    unfolding cleaned_lines_of_def by (rule cleaned_lines_end_newline)
qed

lemma ingest_parallel_try_perm:
  assumes p: "0 < cpu_count env" "0 < cpu_count env'"
    and same: "has_ciso8601 env' = has_ciso8601 env" "file_lines env' = file_lines env"
      "pg_row env' = pg_row env"
  shows "(\<exists>c e e'. ingest_parallel_try env t conn = (c, Inl e) \<and>
            ingest_parallel_try env' t conn = (c, Inl e')) \<or>
         (\<exists>c c' out. ingest_parallel_try env t conn = (c, Inr out) \<and>
            ingest_parallel_try env' t conn = (c', Inr out) \<and>
            loaded_rows (committed c) = loaded_rows (committed c'))"
proof -
  obtain conn1 eo where en: "ensure_table_and_hypertable conn t True = (conn1, eo)"
    by (cases "ensure_table_and_hypertable conn t True")
  show ?thesis
  proof (cases eo)
    case (Some e)
    with en show ?thesis
      unfolding ingest_parallel_try_unfold [OF p(1)] ingest_parallel_try_unfold [OF p(2)]
      by simp
  next
    case None
    show ?thesis
    proof (cases "file_lines env")
      case fn: None
      with en None same show ?thesis
        unfolding ingest_parallel_try_unfold [OF p(1)] ingest_parallel_try_unfold [OF p(2)]
        by simp
    next
      case (Some ls)
      show ?thesis
      proof (cases "length (drop 1 ls) = 0")
        case True
        with en None same Some show ?thesis
          unfolding ingest_parallel_try_unfold [OF p(1)] ingest_parallel_try_unfold [OF p(2)]
          by simp
      next
        case False
        let ?C = "cleaned_lines_of env (drop 1 ls)"
        let ?C' = "cleaned_lines_of env' (drop 1 ls)"
        have m: "mset ?C = mset ?C'"
          using cleaned_lines_of_mset [OF p(1)] cleaned_lines_of_mset [OF p(2)] same by simp
        then have len: "length ?C = length ?C'"
          by (rule mset_eq_length)
        have "mset (map csv_lines ?C) = mset (map csv_lines ?C')"
          using m by simp
        then have "mset (concat (map csv_lines ?C)) = mset (concat (map csv_lines ?C'))"
          by (rule mset_concat_perm)
        then have "mset (csv_lines (concat ?C)) = mset (csv_lines (concat ?C'))"
          unfolding cleaned_lines_of_csv [OF p(1)] cleaned_lines_of_csv [OF p(2)] .
        from copy_expert_perm [OF this, of "pg_row env" t conn1]
        show ?thesis
        proof
          assume "\<exists>e1 e2. copy_expert (pg_row env) t (concat ?C) conn1 = Inl e1 \<and>
                          copy_expert (pg_row env) t (concat ?C') conn1 = Inl e2"
          with en None same Some False show ?thesis
            unfolding ingest_parallel_try_unfold [OF p(1)] ingest_parallel_try_unfold [OF p(2)]
            by auto
        next
          assume "\<exists>c1 c2. copy_expert (pg_row env) t (concat ?C) conn1 = Inr c1 \<and>
                    copy_expert (pg_row env) t (concat ?C') conn1 = Inr c2 \<and>
                    loaded_rows (working c1) = loaded_rows (working c2)"
          with en None same Some False len show ?thesis
            unfolding ingest_parallel_try_unfold [OF p(1)] ingest_parallel_try_unfold [OF p(2)]
            by (auto simp: commit_def)
        qed
      qed
    qed
  qed
qed

lemma ingest_parallel_perm:
  assumes p: "0 < cpu_count env" "0 < cpu_count env'"
    and same: "has_ciso8601 env' = has_ciso8601 env" "file_lines env' = file_lines env"
      "pg_row env' = pg_row env" "connect_outcomes env' = connect_outcomes env"
  shows "loaded_rows (fst (ingest_parallel env t db)) = loaded_rows (fst (ingest_parallel env' t db)) \<and>
         (\<forall>a k. fst (snd (ingest_parallel env t db)) = Ingested a k
                  \<longleftrightarrow> fst (snd (ingest_parallel env' t db)) = Ingested a k) \<and>
         ((\<exists>e. fst (snd (ingest_parallel env t db)) = Failed e)
            \<longleftrightarrow> (\<exists>e. fst (snd (ingest_parallel env' t db)) = Failed e))"
proof (cases "fst (get_db_connection (connect_outcomes env) db)")
  case None
  then show ?thesis
    unfolding ingest_parallel_def using same(4) by (auto split: prod.splits)
next
  case (Some conn)
  from ingest_parallel_try_perm [OF p same(1,2,3), of t conn]
  show ?thesis
  proof
    assume "\<exists>c e e'. ingest_parallel_try env t conn = (c, Inl e) \<and>
              ingest_parallel_try env' t conn = (c, Inl e')"
    with Some same(4) show ?thesis
      unfolding ingest_parallel_def
      by (auto split: prod.splits simp: close_connection_def rollback_def)
  next
    assume "\<exists>c c' out. ingest_parallel_try env t conn = (c, Inr out) \<and>
              ingest_parallel_try env' t conn = (c', Inr out) \<and>
              loaded_rows (committed c) = loaded_rows (committed c')"
    with Some same(4) show ?thesis
      unfolding ingest_parallel_def
      by (auto split: prod.splits simp: close_connection_def)
  qed
qed

text \<open>
  C9. A run with a pool of one process and a run with a pool of any size \<open>n\<close>, on the same
  file and store and whatever the order in which the chunks complete, compute the same
  accepted and rejected counts and leave the same set of rows in every relation. With one
  process the results come back in the order of the lines.
\<close>

theorem C9_pool_size_invariance:
  assumes "0 < n"
  shows
    "loaded_rows (fst (ingest_parallel (env\<lparr>cpu_count := 1, completions := ks\<rparr>) t db))
       = loaded_rows (fst (ingest_parallel (env\<lparr>cpu_count := n, completions := ks'\<rparr>) t db)) \<and>
     (\<forall>a k. fst (snd (ingest_parallel (env\<lparr>cpu_count := 1, completions := ks\<rparr>) t db))
                = Ingested a k
             \<longleftrightarrow> fst (snd (ingest_parallel (env\<lparr>cpu_count := n, completions := ks'\<rparr>) t db))
                = Ingested a k) \<and>
     map_sum id (\<lambda>r. snd (snd r)) (transform_phase c 1 ks lines)
       = map_sum id (\<lambda>r. snd (snd r)) (transform_phase c n ks' lines) \<and>
     map_sum id fst (transform_phase c 1 ks lines) = Inr (map (normalized c) lines)"
proof -
  have one: "(0::nat) < 1" by simp
  have a: "loaded_rows (fst (ingest_parallel (env\<lparr>cpu_count := 1, completions := ks\<rparr>) t db))
       = loaded_rows (fst (ingest_parallel (env\<lparr>cpu_count := n, completions := ks'\<rparr>) t db)) \<and>
     (\<forall>a k. fst (snd (ingest_parallel (env\<lparr>cpu_count := 1, completions := ks\<rparr>) t db))
                = Ingested a k
             \<longleftrightarrow> fst (snd (ingest_parallel (env\<lparr>cpu_count := n, completions := ks'\<rparr>) t db))
                = Ingested a k)"
    using ingest_parallel_perm
      [of "env\<lparr>cpu_count := 1, completions := ks\<rparr>" "env\<lparr>cpu_count := n, completions := ks'\<rparr>" t db]
      assms
    by simp
  let ?R = "pool_results 1 ks (normalized c) lines 1000"
  let ?R' = "pool_results n ks' (normalized c) lines 1000"
  have "mset ?R = mset ?R'"
    using assms by (simp add: pool_results_mset)
  then have "mset (List.map_filter (\<lambda>line. line) ?R) = mset (List.map_filter (\<lambda>line. line) ?R')"
    by (simp add: List.map_filter_def)
  then have "length (List.map_filter (\<lambda>line. line) ?R) = length (List.map_filter (\<lambda>line. line) ?R')"
    by (rule mset_eq_length)
  then have b: "map_sum id (\<lambda>r. snd (snd r)) (transform_phase c 1 ks lines)
       = map_sum id (\<lambda>r. snd (snd r)) (transform_phase c n ks' lines)"
    unfolding transform_phase_result [OF one] transform_phase_result [OF assms] by simp
  have "map_sum id fst (transform_phase c 1 ks lines) = Inr (map (normalized c) lines)"
    unfolding transform_phase_result [OF one]
    using pool_results_one [of 1000 ks "normalized c" lines] by simp
  with a b show ?thesis by blast
qed

section \<open>Which entry point drops the relation\<close>

lemma keeps_relations_refl: "keeps_relations db db"
  by (simp add: keeps_relations_def)

lemma keeps_relations_trans:
  "keeps_relations a b \<Longrightarrow> keeps_relations b c \<Longrightarrow> keeps_relations a c"
  unfolding keeps_relations_def by fastforce

lemma create_table_keeps:
  assumes "create_table name conn = Inr c"
  shows "keeps_relations (working conn) (working c) \<and> committed c = committed conn"
  using assms unfolding create_table_def table_exists_def keeps_relations_def
  by (auto split: if_splits)

lemma create_hypertable_keeps:
  assumes "create_hypertable name conn = Inr c"
  shows "keeps_relations (working conn) (working c) \<and> committed c = committed conn"
  using assms unfolding create_hypertable_def on_tables_def keeps_relations_def
  by (auto split: option.splits if_splits)

lemma truncate_table_keeps:
  assumes "truncate_table name conn = Inr c"
  shows "keeps_relations (working conn) (working c) \<and> committed c = committed conn"
  using assms unfolding truncate_table_def on_tables_def keeps_relations_def
  by (auto split: option.splits)

lemma copy_expert_keeps:
  assumes "copy_expert pg name data conn = Inr c"
  shows "keeps_relations (working conn) (working c) \<and> committed c = committed conn"
  using assms unfolding copy_expert_def on_tables_def keeps_relations_def
  by (auto split: option.splits sum.splits)

text \<open>The invariant of a connection: neither of its two states has lost a relation of \<open>db\<close>.\<close>

lemma guarded_statement_keeps:
  assumes i: "keeps_relations db (committed conn)" "keeps_relations db (working conn)"
    and k: "\<And>c. stmt = Inr c \<Longrightarrow>
              keeps_relations (working conn) (working c) \<and> committed c = committed conn"
    and r: "(if guard then (case stmt of Inl e \<Rightarrow> (conn, Some e) | Inr c \<Rightarrow> (commit c, None))
            else (conn, None)) = (conn', eo)"
  shows "keeps_relations db (committed conn') \<and> keeps_relations db (working conn')"
proof (cases guard)
  case False
  with r have "conn' = conn" by simp
  with i show ?thesis by simp
next
  case True
  show ?thesis
  proof (cases stmt)
    case (Inl e)
    with True r have "conn' = conn" by simp
    with i show ?thesis by simp
  next
    case (Inr c)
    with True r have c: "conn' = commit c" by simp
    from k [OF Inr] have "keeps_relations (working conn) (working c)" by simp
    with i(2) have "keeps_relations db (working c)" by (rule keeps_relations_trans)
    then show ?thesis unfolding c commit_def by simp
  qed
qed

lemma retry_same: "(case x of Inl e \<Rightarrow> x | Inr c \<Rightarrow> Inr c) = x"
  by (cases x) simp_all

lemma ensure_table_and_hypertable_keeps:
  assumes "keeps_relations db (committed conn)" "keeps_relations db (working conn)"
    and "ensure_table_and_hypertable conn name clear_data = (conn', eo)"
  shows "keeps_relations db (committed conn') \<and> keeps_relations db (working conn')"
proof -
  obtain conn1 e1 where r1: "(if \<not> table_exists conn name
            then (case create_table name conn of
                    Inl e \<Rightarrow> (conn, Some e)
                  | Inr c \<Rightarrow> (commit c, None))
            else (conn, None)) = (conn1, e1)"
    by (rule prod.exhaust)
  have k1: "keeps_relations db (committed conn1) \<and> keeps_relations db (working conn1)"
    using assms(1,2) create_table_keeps r1 by (rule guarded_statement_keeps)
  obtain conn2 e2 where r2: "(if \<not> is_hypertable conn1 name
                 then (case create_hypertable name conn1 of
                         Inl e \<Rightarrow> (conn1, Some e)
                       | Inr c \<Rightarrow> (commit c, None))
                 else (conn1, None)) = (conn2, e2)"
    by (rule prod.exhaust)
  have k2: "keeps_relations db (committed conn2) \<and> keeps_relations db (working conn2)"
    using k1 [THEN conjunct1] k1 [THEN conjunct2] create_hypertable_keeps r2
    by (rule guarded_statement_keeps)
  obtain conn3 e3 where r3: "(if clear_data
               then (case truncate_table name conn2 of
                       Inl e \<Rightarrow> (conn2, Some e)
                     | Inr c \<Rightarrow> (commit c, None))
               else (conn2, None)) = (conn3, e3)"
    by (rule prod.exhaust)
  have k3: "keeps_relations db (committed conn3) \<and> keeps_relations db (working conn3)"
    using k2 [THEN conjunct1] k2 [THEN conjunct2] truncate_table_keeps r3
    by (rule guarded_statement_keeps)
  have "ensure_table_and_hypertable conn name clear_data =
          (case e1 of Some e \<Rightarrow> (conn1, Some e)
           | None \<Rightarrow> (case e2 of Some e \<Rightarrow> (conn2, Some e) | None \<Rightarrow> (conn3, e3)))"
    unfolding ensure_table_and_hypertable_def retry_same r1
    by (cases e1; cases e2) (simp_all add: r2 r3)
  with assms(3) have "conn' = conn1 \<or> conn' = conn2 \<or> conn' = conn3"
    by (cases e1; cases e2) auto
  with k1 k2 k3 show ?thesis by blast
qed

lemma ingest_parallel_try_keeps:
  assumes "keeps_relations db (committed conn)" "keeps_relations db (working conn)"
    and "ingest_parallel_try env name conn = (conn', r)"
  shows "keeps_relations db (committed conn')"
proof -
  obtain conn1 eo where en: "ensure_table_and_hypertable conn name True = (conn1, eo)"
    by (cases "ensure_table_and_hypertable conn name True")
  note k1 = ensure_table_and_hypertable_keeps [OF assms(1,2) en]
  from assms(3) en have "conn' = conn1 \<or>
      (\<exists>data c. copy_expert (pg_row env) name data conn1 = Inr c \<and> conn' = commit c)"
    unfolding ingest_parallel_try_def
    by (auto simp: Let_def split: option.splits if_splits sum.splits prod.splits)
  then show ?thesis
  proof
    assume "conn' = conn1"
    with k1 show ?thesis by simp
  next
    assume "\<exists>data c. copy_expert (pg_row env) name data conn1 = Inr c \<and> conn' = commit c"
    then obtain data c where c: "copy_expert (pg_row env) name data conn1 = Inr c"
      and c': "conn' = commit c" by blast
    from copy_expert_keeps [OF c] k1 have "keeps_relations db (working c)"
      using keeps_relations_trans by blast
    then show ?thesis unfolding c' commit_def by simp
  qed
qed

lemma ingest_parallel_keeps: "keeps_relations db (fst (ingest_parallel env name db))"
proof (cases "fst (get_db_connection (connect_outcomes env) db)")
  case None
  then show ?thesis
    unfolding ingest_parallel_def
    by (auto split: prod.splits simp: keeps_relations_refl)
next
  case (Some conn)
  then have conn: "conn = \<lparr>committed = db, working = db\<rparr>"
    unfolding get_db_connection_def by (auto split: prod.splits bool.splits)
  obtain conn' r where t: "ingest_parallel_try env name conn = (conn', r)"
    by (cases "ingest_parallel_try env name conn")
  have a: "keeps_relations db (committed conn)" "keeps_relations db (working conn)"
    unfolding conn by (simp_all add: keeps_relations_refl)
  have "keeps_relations db (committed conn')"
    using a t by (rule ingest_parallel_try_keeps)
  with Some t show ?thesis
    unfolding ingest_parallel_def
    by (auto split: prod.splits sum.splits simp: close_connection_def rollback_def)
qed

lemma ingest_data_recreates:
  "relation_oid (fst (ingest_data (True # rest) frame db)) ''swissgrid_frequency_data''
     = Some (next_oid db)"
  by (cases frame)
    (simp_all add: ingest_data_def ingest_data_try_def get_db_connection_def next_attempt_def
      relation_oid_def Let_def create_table_def table_exists_def drop_table_if_exists_def
      on_tables_def commit_def is_hypertable_def create_hypertable_def execute_values_def
      close_connection_def rollback_def)

section \<open>Concrete runs\<close>

lemmas sink_defs = table_exists_def create_table_def drop_table_if_exists_def is_hypertable_def
  create_hypertable_def truncate_table_def copy_expert_def execute_values_def on_tables_def
  commit_def rollback_def close_connection_def csv_lines_def csv_row_def

lemmas run_defs = ingest_parallel_def get_db_connection_def next_attempt_def run_env_def
  ensure_table_and_hypertable_def cleaned_lines_of_def pool_results_def loaded_rows_def
  relation_oid_def

lemma duplicate_lines_normalized:
  "normalized True ''Sa. 01.05.21 00:00:00;50\<newline>'' = Some ''2021-05-01 00:00:00,50\<newline>''"
  by (simp add: normalized_def tr_defs str_defs float_defs ciso_defs)

lemma scenario_run_one:
  "fst (snd (ingest_parallel (run_env [True] scenario_file 1 []) ''swissgrid_frequency_data''
     empty_database)) = Ingested 2 1"
  "loaded_rows (fst (ingest_parallel (run_env [True] scenario_file 1 [])
     ''swissgrid_frequency_data'' empty_database)) ''swissgrid_frequency_data''
     = Some {(''2021-05-01 00:00:00'', ''50''), (''2021-05-01 00:00:01'', ''50.5'')}"
  by (simp_all add: run_defs sink_defs ingest_parallel_try_unfold chunks_of_small
      scenario_lines_normalized List.map_filter_def scenario_file_def empty_database_def)

lemma duplicate_run:
  "fst (snd (ingest_parallel (run_env [True] duplicate_file 4 []) ''swissgrid_frequency_data''
     empty_database)) = Failed UniqueViolation"
  "loaded_rows (fst (ingest_parallel (run_env [True] duplicate_file 4 [])
     ''swissgrid_frequency_data'' empty_database)) ''swissgrid_frequency_data'' = Some {}"
  by (simp_all add: run_defs sink_defs ingest_parallel_try_unfold chunks_of_small
      duplicate_lines_normalized List.map_filter_def duplicate_file_def empty_database_def)

lemma duplicate_run_existing:
  "loaded_rows existing_database ''swissgrid_frequency_data''
     = Some {(''2021-05-01 00:00:00'', ''50'')}"
  "fst (snd (ingest_parallel (run_env [True] duplicate_file 4 []) ''swissgrid_frequency_data''
     existing_database)) = Failed UniqueViolation"
  "loaded_rows (fst (ingest_parallel (run_env [True] duplicate_file 4 [])
     ''swissgrid_frequency_data'' existing_database)) ''swissgrid_frequency_data'' = Some {}"
  by (simp_all add: run_defs sink_defs ingest_parallel_try_unfold chunks_of_small
      duplicate_lines_normalized List.map_filter_def duplicate_file_def existing_database_def)

lemma duplicate_insert:
  "fst (snd (ingest_data [True]
     (Inr [(''2021-05-01 00:00:00'', ''50''), (''2021-05-01 00:00:00'', ''50'')])
     empty_database)) = Inserted 2"
  "map_option rows (tables (fst (ingest_data [True]
     (Inr [(''2021-05-01 00:00:00'', ''50''), (''2021-05-01 00:00:00'', ''50'')])
     empty_database)) ''swissgrid_frequency_data'') = Some [(''2021-05-01 00:00:00'', ''50'')]"
  by (simp_all add: ingest_data_def ingest_data_try_def get_db_connection_def next_attempt_def
      sink_defs empty_database_def Let_def)

lemma scenario_rerun:
  "loaded_rows (fst (ingest_parallel (run_env [True] scenario_file 1 [])
     ''swissgrid_frequency_data''
     (fst (ingest_parallel (run_env [True] scenario_file 1 []) ''swissgrid_frequency_data''
        empty_database)))) ''swissgrid_frequency_data''
     = Some {(''2021-05-01 00:00:00'', ''50''), (''2021-05-01 00:00:01'', ''50.5'')}"
  by (simp add: run_defs sink_defs ingest_parallel_try_unfold chunks_of_small
      scenario_lines_normalized List.map_filter_def scenario_file_def empty_database_def)

text \<open>
  C1. The claim asks that a bulk load ignore a duplicate timestamp. \<open>ingest_parallel\<close>
  loads with \<open>COPY\<close>, which has no conflict clause: on the file whose two data lines carry
  the same timestamp the load raises \<open>UniqueViolation\<close>, the run is rolled back after the
  truncation was committed, and the relation is left empty, also when it held rows before.
  \<open>ingest_data\<close>, which inserts with \<open>ON CONFLICT (timestamp) DO NOTHING\<close>, keeps the first
  of the two rows.
\<close>

theorem C1_duplicate_timestamp_aborts_copy:
  "fst (snd (ingest_parallel (run_env [True] duplicate_file 4 []) ''swissgrid_frequency_data''
     empty_database)) = Failed UniqueViolation \<and>
   loaded_rows (fst (ingest_parallel (run_env [True] duplicate_file 4 [])
     ''swissgrid_frequency_data'' empty_database)) ''swissgrid_frequency_data'' = Some {} \<and>
   loaded_rows existing_database ''swissgrid_frequency_data''
     = Some {(''2021-05-01 00:00:00'', ''50'')} \<and>
   loaded_rows (fst (ingest_parallel (run_env [True] duplicate_file 4 [])
     ''swissgrid_frequency_data'' existing_database)) ''swissgrid_frequency_data'' = Some {} \<and>
   map_option rows (tables (fst (ingest_data [True]
     (Inr [(''2021-05-01 00:00:00'', ''50''), (''2021-05-01 00:00:00'', ''50'')])
     empty_database)) ''swissgrid_frequency_data'') = Some [(''2021-05-01 00:00:00'', ''50'')]"
  using duplicate_run duplicate_run_existing(1,3) duplicate_insert(2) by simp

text \<open>
  C7 as stated fails: \<open>ingest_data\<close> has no parameter that asks for a rebuild, and drops the
  relation on every run. A store whose relation has the identity 0 holds, after a run, a
  relation of that name with the identity 1.
\<close>

theorem C7_ingest_data_drops_counterexample:
  "relation_oid existing_database ''swissgrid_frequency_data'' = Some 0 \<and>
   relation_oid (fst (ingest_data [True] (Inr []) existing_database))
     ''swissgrid_frequency_data'' = Some 1"
  using ingest_data_recreates [of "[]" "Inr []" existing_database]
  by (simp add: relation_oid_def existing_database_def)

text \<open>
  C7, amended. \<open>ingest_parallel\<close> never drops a relation: every relation of the store is
  still there after a run, with the identity it had (the rows of the target are truncated
  and loaded again). \<open>ingest_data\<close> takes no rebuild request and, on every run that gets a
  connection, drops \<open>swissgrid_frequency_data\<close> and creates it anew: the relation then has
  the next fresh identity of the store.
\<close>

theorem C7_parallel_keeps_data_recreates:
  "keeps_relations db (fst (ingest_parallel env table_name db)) \<and>
   relation_oid (fst (ingest_data (True # rest) frame db)) ''swissgrid_frequency_data''
     = Some (next_oid db)"
  using ingest_parallel_keeps ingest_data_recreates by blast

lemma existing_relation:
  "tables existing_database ''swissgrid_frequency_data'' =
     Some \<lparr>oid = 0, rows = [(''2021-05-01 00:00:00'', ''50'')], hypertable = True\<rparr>"
  by (simp add: existing_database_def)

theorem C7_parallel_keeps_data_recreates_witness:
  "relation_oid existing_database ''swissgrid_frequency_data'' = Some 0 \<and>
   relation_oid (fst (ingest_parallel (run_env [True] scenario_file 4 [])
     ''swissgrid_frequency_data'' existing_database)) ''swissgrid_frequency_data'' = Some 0 \<and>
   relation_oid (fst (ingest_data [True] (Inr []) existing_database))
     ''swissgrid_frequency_data'' = Some (next_oid existing_database)"
proof -
  note c = C7_parallel_keeps_data_recreates
    [where db = existing_database and env = "run_env [True] scenario_file 4 []"
      and table_name = "''swissgrid_frequency_data''" and rest = "[]" and frame = "Inr []"]
  from c have "keeps_relations existing_database
      (fst (ingest_parallel (run_env [True] scenario_file 4 []) ''swissgrid_frequency_data''
         existing_database))"
    by simp
  then have "\<exists>rel'. tables (fst (ingest_parallel (run_env [True] scenario_file 4 [])
       ''swissgrid_frequency_data'' existing_database)) ''swissgrid_frequency_data'' = Some rel'
       \<and> oid rel' = 0"
    unfolding keeps_relations_def using existing_relation by fastforce
  then have "relation_oid (fst (ingest_parallel (run_env [True] scenario_file 4 [])
     ''swissgrid_frequency_data'' existing_database)) ''swissgrid_frequency_data'' = Some 0"
    unfolding relation_oid_def by auto
  with c existing_relation show ?thesis
    by (simp add: relation_oid_def)
qed

theorem C9_pool_size_invariance_witness:
  "(0::nat) < 4 \<and>
   loaded_rows (fst (ingest_parallel (run_env [True] scenario_file 4 [3, 1])
     ''swissgrid_frequency_data'' empty_database)) ''swissgrid_frequency_data''
     = Some {(''2021-05-01 00:00:00'', ''50''), (''2021-05-01 00:00:01'', ''50.5'')} \<and>
   fst (snd (ingest_parallel (run_env [True] scenario_file 4 [3, 1])
     ''swissgrid_frequency_data'' empty_database)) = Ingested 2 1"
proof -
  have n: "(0::nat) < 4" by simp
  have e1: "(run_env [True] scenario_file 4 [3, 1])\<lparr>cpu_count := 1, completions := []\<rparr>
              = run_env [True] scenario_file 1 []"
    by (simp add: run_env_def)
  have e4: "(run_env [True] scenario_file 4 [3, 1])\<lparr>cpu_count := 4, completions := [3, 1]\<rparr>
              = run_env [True] scenario_file 4 [3, 1]"
    by (simp add: run_env_def)
  note c = C9_pool_size_invariance [OF n,
      where env = "run_env [True] scenario_file 4 [3, 1]" and ks = "[]" and ks' = "[3, 1]"
        and t = "''swissgrid_frequency_data''" and db = empty_database]
  from c have r: "loaded_rows (fst (ingest_parallel (run_env [True] scenario_file 1 [])
       ''swissgrid_frequency_data'' empty_database))
     = loaded_rows (fst (ingest_parallel (run_env [True] scenario_file 4 [3, 1])
       ''swissgrid_frequency_data'' empty_database))"
    unfolding e1 e4 by blast
  from c have "fst (snd (ingest_parallel (run_env [True] scenario_file 1 [])
       ''swissgrid_frequency_data'' empty_database)) = Ingested 2 1
     \<longleftrightarrow> fst (snd (ingest_parallel (run_env [True] scenario_file 4 [3, 1])
       ''swissgrid_frequency_data'' empty_database)) = Ingested 2 1"
    unfolding e1 e4 by blast
  with scenario_run_one(1) have o: "fst (snd (ingest_parallel (run_env [True] scenario_file 4 [3, 1])
       ''swissgrid_frequency_data'' empty_database)) = Ingested 2 1"
    by simp
  from scenario_run_one(2) r have "loaded_rows (fst (ingest_parallel (run_env [True] scenario_file 4 [3, 1])
     ''swissgrid_frequency_data'' empty_database)) ''swissgrid_frequency_data''
     = Some {(''2021-05-01 00:00:00'', ''50''), (''2021-05-01 00:00:01'', ''50.5'')}"
    by simp
  with n o show ?thesis by simp
qed

section \<open>Acquiring the connection\<close>

lemma get_db_connection_rest:
  "snd (get_db_connection outcomes db) = tl outcomes"
  unfolding get_db_connection_def next_attempt_def
  by (cases outcomes) (auto split: bool.splits)

lemma ingest_parallel_rest:
  "snd (snd (ingest_parallel env table_name db)) = tl (connect_outcomes env)"
  using get_db_connection_rest [of "connect_outcomes env" db]
  unfolding ingest_parallel_def
  by (auto split: prod.splits option.splits sum.splits)

lemma ingest_data_rest:
  "snd (snd (ingest_data outcomes frame db)) = tl outcomes"
  using get_db_connection_rest [of outcomes db]
  unfolding ingest_data_def
  by (auto split: prod.splits option.splits sum.splits)

lemma ingest_parallel_no_connection:
  "ingest_parallel (env\<lparr>connect_outcomes := False # rest\<rparr>) table_name db = (db, NoConnection, rest)"
  "ingest_parallel (env\<lparr>connect_outcomes := []\<rparr>) table_name db = (db, NoConnection, [])"
  unfolding ingest_parallel_def get_db_connection_def next_attempt_def by simp_all

lemma ingest_data_no_connection:
  "ingest_data (False # rest) frame db = (db, NoConnection, rest)"
  "ingest_data [] frame db = (db, NoConnection, [])"
  unfolding ingest_data_def get_db_connection_def next_attempt_def by simp_all

lemma get_async_db_pool_unfold:
  "get_async_db_pool outcomes = pool_attempts 5 5 [1, 2, 3, 4, 5] outcomes 0"
proof -
  have "[1..<5 + 1] = [1, 2, 3, 4, 5::nat]"
    by (simp add: upt_rec)
  then show ?thesis
    unfolding get_async_db_pool_def Let_def by (simp only:)
qed

lemma get_async_db_pool_cases:
  "get_async_db_pool (True # rest) = (Inr (Some ()), rest, 0)"
  "get_async_db_pool (False # True # rest) = (Inr (Some ()), rest, 5)"
  "get_async_db_pool (False # False # True # rest) = (Inr (Some ()), rest, 10)"
  "get_async_db_pool (False # False # False # True # rest) = (Inr (Some ()), rest, 15)"
  "get_async_db_pool (False # False # False # False # True # rest) = (Inr (Some ()), rest, 20)"
  "get_async_db_pool (False # False # False # False # False # rest) = (Inl OperationalError, rest, 20)"
  unfolding get_async_db_pool_unfold by (simp_all add: next_attempt_def)

text \<open>
  C8 as stated fails: the ingestion makes one connection attempt. With a server that is
  down at the first attempt and up at the second, the run ends without a connection, and
  the second outcome is never asked for; the retrying loop of the query service connects.
\<close>

theorem C8_no_retry_counterexample:
  "ingest_parallel (run_env [False, True] scenario_file 4 []) ''swissgrid_frequency_data''
     empty_database = (empty_database, NoConnection, [True]) \<and>
   get_async_db_pool [False, True] = (Inr (Some ()), [], 5)"
  using ingest_parallel_no_connection(1)
    [where env = "run_env [False, True] scenario_file 4 []" and rest = "[True]"]
    get_async_db_pool_cases(2) [of "[]"]
  by (simp add: run_env_def)

text \<open>
  C8, amended. An ingestion run makes exactly one connection attempt, with no delay and no
  retry; when it fails the run is over before the schema, the file or the workers are
  touched, and the store is as it was. The bounded retry (five attempts, five seconds
  between two attempts) is the query service's: it returns the pool at the first attempt
  that succeeds and raises after the fifth failure.
\<close>

theorem C8_single_attempt:
  "snd (snd (ingest_parallel env table_name db)) = tl (connect_outcomes env) \<and>
   ingest_parallel (env\<lparr>connect_outcomes := False # rest\<rparr>) table_name db
     = (db, NoConnection, rest) \<and>
   ingest_parallel (env\<lparr>connect_outcomes := []\<rparr>) table_name db = (db, NoConnection, []) \<and>
   snd (snd (ingest_data outcomes frame db)) = tl outcomes \<and>
   ingest_data (False # rest) frame db = (db, NoConnection, rest) \<and>
   get_async_db_pool (True # rest) = (Inr (Some ()), rest, 0) \<and>
   get_async_db_pool (False # True # rest) = (Inr (Some ()), rest, 5) \<and>
   get_async_db_pool (False # False # True # rest) = (Inr (Some ()), rest, 10) \<and>
   get_async_db_pool (False # False # False # True # rest) = (Inr (Some ()), rest, 15) \<and>
   get_async_db_pool (False # False # False # False # True # rest) = (Inr (Some ()), rest, 20) \<and>
   get_async_db_pool (False # False # False # False # False # rest)
     = (Inl OperationalError, rest, 20)"
  by (simp add: ingest_parallel_rest ingest_parallel_no_connection ingest_data_rest
      ingest_data_no_connection get_async_db_pool_cases)

section \<open>Properties of the query service\<close>

lemma sort_key_Nil_iff: "sort_key f xs = [] \<longleftrightarrow> xs = []"
  using length_sort [of f xs] by (metis length_0_conv)

lemma remdups_Nil_iff: "remdups xs = [] \<longleftrightarrow> xs = []"
  using set_remdups [of xs] by (metis set_empty)

text \<open>
  C10. For a well-formed request on an existing relation, both read operations, the raw
  rows of a range and the averages per time bucket, answer with status 404 when no row of
  the relation lies in the range, and with a non-empty list exactly when one does.
\<close>

theorem C10_empty_range_not_found:
  assumes "fromisoformat (py_replace (CHR ''Z'') ''+00:00'' start_time) = Some start_dt"
    and "fromisoformat (py_replace (CHR ''Z'') ''+00:00'' end_time) = Some end_dt"
    and "tables db (table_value table_name) = Some rel"
  shows "if \<exists>r \<in> set (rows rel). in_range start_dt end_dt r
         then (\<exists>rs. rs \<noteq> [] \<and>
                 get_raw_data fromisoformat db table_name start_time end_time = Inr rs) \<and>
              (\<exists>rs. rs \<noteq> [] \<and>
                 get_aggregated_data fromisoformat db table_name start_time end_time resolution
                   = Inr rs)
         else get_raw_data fromisoformat db table_name start_time end_time
                = Inl (HTTPException 404) \<and>
              get_aggregated_data fromisoformat db table_name start_time end_time resolution
                = Inl (HTTPException 404)"
proof (cases "filter (in_range start_dt end_dt) (rows rel) = []")
  case True
  then have "\<not> (\<exists>r \<in> set (rows rel). in_range start_dt end_dt r)"
    by (simp add: filter_empty_conv)
  with True assms show ?thesis
    unfolding get_raw_data_def get_aggregated_data_def by simp
next
  case False
  then have "\<exists>r \<in> set (rows rel). in_range start_dt end_dt r"
    by (simp add: filter_empty_conv)
  with False assms show ?thesis
    unfolding get_raw_data_def get_aggregated_data_def
    by (simp add: sort_key_Nil_iff remdups_Nil_iff Let_def)
qed

lemma query_requests:
  "seconds_text (py_replace (CHR ''Z'') ''+00:00'' ''0'') = Some 0"
  "seconds_text (py_replace (CHR ''Z'') ''+00:00'' ''1'') = Some 1000000"
  "seconds_text (py_replace (CHR ''Z'') ''+00:00'' ''5'') = Some 5000000"
  "seconds_text (py_replace (CHR ''Z'') ''+00:00'' ''9'') = Some 9000000"
  by (simp_all add: seconds_text_def py_replace_def is_digit_def nat_of_digits_def digit_val_def)

lemma query_relation:
  "tables query_database (table_value swissgrid_frequency_data) =
     Some \<lparr>oid = 0, rows = [(1000000, 50), (0, 50), (2000000, 101 / 2)], hypertable = True\<rparr>"
  by (simp add: query_database_def)

theorem C10_empty_range_not_found_witness:
  "(\<exists>rs. rs \<noteq> [] \<and>
      get_raw_data seconds_text query_database swissgrid_frequency_data ''0'' ''1'' = Inr rs) \<and>
   (\<exists>rs. rs \<noteq> [] \<and>
      get_aggregated_data seconds_text query_database swissgrid_frequency_data ''0'' ''1'' m15
        = Inr rs) \<and>
   get_raw_data seconds_text query_database swissgrid_frequency_data ''5'' ''9''
     = Inl (HTTPException 404) \<and>
   get_aggregated_data seconds_text query_database swissgrid_frequency_data ''5'' ''9'' m15
     = Inl (HTTPException 404)"
  using
    C10_empty_range_not_found [OF query_requests(1) query_requests(2) query_relation, of m15]
    C10_empty_range_not_found [OF query_requests(3) query_requests(4) query_relation, of m15]
  by (simp add: in_range_def)

lemma query_rows:
  "get_raw_data seconds_text query_database swissgrid_frequency_data ''0'' ''2'' =
     Inr [(0, 50), (1000000, 50), (2000000, 101 / 2)]"
  "get_aggregated_data seconds_text query_database swissgrid_frequency_data ''0'' ''2'' s15 =
     Inr [(0, 301 / 6)]"
  by (simp_all add: get_raw_data_def get_aggregated_data_def query_database_def seconds_text_def
      py_replace_def is_digit_def nat_of_digits_def digit_val_def in_range_def time_bucket_def
      avg_def)

end
